theory Spec2Isabelle
  imports Main "HOL-Library.Word"
begin

section \<open>go-steam-auth: OpenID2 sign-in against Steam\<close>

text \<open>
  A shallow embedding of package \<open>gosteamauth\<close> (\<open>auth.go\<close>, \<open>user.go\<close>).
  Go strings are byte strings: \<open>string\<close> here, one \<open>char\<close> per byte.
  A Go function returning \<open>(T, error)\<close> returns the pair \<open>(T, error option)\<close>
  here, so that the value returned next to an error is visible.
  The parts of the Go standard library the package calls (\<open>strings\<close>,
  \<open>net/url\<close>, \<open>net/http\<close>, \<open>encoding/json\<close>) are modelled next to
  the package's own functions, under the library's names.
\<close>

subsection \<open>Package \<open>strings\<close>\<close>

text \<open>\<open>strings.HasPrefix(s, prefix)\<close>.\<close>

fun HasPrefix :: "string \<Rightarrow> string \<Rightarrow> bool" where
  "HasPrefix s [] = True"
| "HasPrefix [] (p # ps) = False"
| "HasPrefix (c # s) (p # ps) = (c = p \<and> HasPrefix s ps)"

text \<open>\<open>strings.Contains(s, substr)\<close>: \<open>substr\<close> starts at some position of \<open>s\<close>.\<close>

fun Contains :: "string \<Rightarrow> string \<Rightarrow> bool" where
  "Contains [] substr = HasPrefix [] substr"
| "Contains (c # s) substr = (HasPrefix (c # s) substr \<or> Contains s substr)"

text \<open>
  \<open>strings.Split(s, sep)\<close> for a separator of one byte: the loop of \<open>genSplit\<close>,
  which cuts \<open>s\<close> at every separator and ends with the rest of \<open>s\<close>. \<open>cur\<close> is the
  piece read since the last separator.
\<close>

fun Split_from :: "char \<Rightarrow> string \<Rightarrow> string \<Rightarrow> string list" where
  "Split_from sep cur [] = [cur]"
| "Split_from sep cur (c # s) =
     (if c = sep then cur # Split_from sep [] s else Split_from sep (cur @ [c]) s)"

definition Split :: "string \<Rightarrow> char \<Rightarrow> string list" where
  "Split s sep = Split_from sep [] s"

text \<open>\<open>strings.Cut(s, sep)\<close> for a separator of one byte: the text before the first
  separator and the text after it (all of \<open>s\<close> and \<open>""\<close> when there is none).\<close>

definition Cut :: "string \<Rightarrow> char \<Rightarrow> string \<times> string" where
  "Cut s sep = (takeWhile (\<lambda>c. c \<noteq> sep) s, drop 1 (dropWhile (\<lambda>c. c \<noteq> sep) s))"

text \<open>\<open>strings.HasSuffix(s, suffix)\<close> and \<open>strings.Count(s, sep)\<close> for one byte.\<close>

definition HasSuffix :: "string \<Rightarrow> char \<Rightarrow> bool" where
  "HasSuffix s c = (s \<noteq> [] \<and> last s = c)"

definition Count :: "string \<Rightarrow> char \<Rightarrow> nat" where
  "Count s c = length (filter (\<lambda>x. x = c) s)"

subsection \<open>Bytes as numbers, hexadecimal digits\<close>

definition byte :: "char \<Rightarrow> nat" where
  "byte c = of_char c"

text \<open>Bytewise lexicographic order, the order of Go's \<open><\<close> on strings.\<close>

fun string_less :: "string \<Rightarrow> string \<Rightarrow> bool" where
  "string_less [] [] = False"
| "string_less [] (y # ys) = True"
| "string_less (x # xs) [] = False"
| "string_less (x # xs) (y # ys) = (byte x < byte y \<or> (x = y \<and> string_less xs ys))"

fun insert_sorted :: "string \<Rightarrow> string list \<Rightarrow> string list" where
  "insert_sorted k [] = [k]"
| "insert_sorted k (x # xs) =
     (if string_less x k then x # insert_sorted k xs else k # x # xs)"

text \<open>\<open>slices.Sort\<close> on a list of strings.\<close>

fun sort_strings :: "string list \<Rightarrow> string list" where
  "sort_strings [] = []"
| "sort_strings (k # ks) = insert_sorted k (sort_strings ks)"

text \<open>The digit tables \<open>"0123456789ABCDEF"\<close> of \<open>net/url\<close> and
  \<open>"0123456789abcdef"\<close> of \<open>fmt\<close>'s verb \<open>%x\<close>.\<close>

definition upperhex :: "nat \<Rightarrow> char" where
  "upperhex n = ''0123456789ABCDEF'' ! (n mod 16)"

definition lowerhex :: "nat \<Rightarrow> char" where
  "lowerhex n = ''0123456789abcdef'' ! (n mod 16)"

text \<open>\<open>fmt\<close>'s \<open>%x\<close> of a string: two lower-case digits for each byte.\<close>

definition hex_string :: "string \<Rightarrow> string" where
  "hex_string s = concat (map (\<lambda>c. [lowerhex (byte c div 16), lowerhex (byte c mod 16)]) s)"

subsection \<open>\<open>net/url\<close>: query escaping\<close>

definition is_alnum :: "char \<Rightarrow> bool" where
  "is_alnum c = ((byte CHR ''a'' \<le> byte c \<and> byte c \<le> byte CHR ''z'')
     \<or> (byte CHR ''A'' \<le> byte c \<and> byte c \<le> byte CHR ''Z'')
     \<or> (byte CHR ''0'' \<le> byte c \<and> byte c \<le> byte CHR ''9''))"

text \<open>
  \<open>shouldEscape(c, encodeQueryComponent)\<close>: letters, digits and the marks
  \<open>- _ . ~\<close> stay; the reserved bytes \<open>$ & + , / : ; = ? @\<close> and every other
  byte are escaped.
\<close>

definition shouldEscape :: "char \<Rightarrow> bool" where
  "shouldEscape c = (\<not> (is_alnum c \<or> c \<in> set ''-_.~''))"

text \<open>\<open>QueryEscape\<close>: a space becomes \<open>+\<close>, an escaped byte \<open>%XX\<close>.\<close>

definition escape_byte :: "char \<Rightarrow> string" where
  "escape_byte c =
     (if c = CHR '' '' then ''+''
      else if shouldEscape c then [CHR ''%'', upperhex (byte c div 16), upperhex (byte c mod 16)]
      else [c])"

definition QueryEscape :: "string \<Rightarrow> string" where
  "QueryEscape s = concat (map escape_byte s)"

subsection \<open>\<open>net/url\<close>: \<open>Values\<close>\<close>

text \<open>
  \<open>url.Values\<close> is \<open>map[string][]string\<close>. A value of the type is a list of
  bindings read through \<open>map_of\<close> (the first binding of a key is the key's entry), so
  that the keys can be listed for \<open>Encode\<close>. A Go map is a reference: the maps
  themselves live in the store below, and a variable of type \<open>url.Values\<close> holds
  the address of one.
\<close>

type_synonym Values = "(string \<times> string list) list"

text \<open>\<open>Values.Get\<close>: the first value of the key, \<open>""\<close> when there is none.\<close>

definition Values_Get :: "Values \<Rightarrow> string \<Rightarrow> string" where
  "Values_Get v key =
     (case map_of v key of None \<Rightarrow> [] | Some [] \<Rightarrow> [] | Some (x # xs) \<Rightarrow> x)"

text \<open>\<open>Values.Set\<close>: \<open>v[key] = []string{value}\<close>.\<close>

fun Values_Set :: "Values \<Rightarrow> string \<Rightarrow> string \<Rightarrow> Values" where
  "Values_Set [] key val = [(key, [val])]"
| "Values_Set ((k, vs) # v) key val =
     (if k = key then (key, [val]) # v else (k, vs) # Values_Set v key val)"

text \<open>\<open>Values.Add\<close>: \<open>v[key] = append(v[key], value)\<close>.\<close>

fun Values_Add :: "Values \<Rightarrow> string \<Rightarrow> string \<Rightarrow> Values" where
  "Values_Add [] key val = [(key, [val])]"
| "Values_Add ((k, vs) # v) key val =
     (if k = key then (k, vs @ [val]) # v else (k, vs) # Values_Add v key val)"

text \<open>
  \<open>Values.Encode\<close>: the keys sorted, and for each key and each of its values
  \<open>QueryEscape(key)=QueryEscape(value)\<close>, the pieces joined by \<open>&\<close>.
\<close>

definition Values_keys :: "Values \<Rightarrow> string list" where
  "Values_keys v = sort_strings (remdups (map fst v))"

definition encode_key :: "Values \<Rightarrow> string \<Rightarrow> string list" where
  "encode_key v k =
     map (\<lambda>x. QueryEscape k @ ''='' @ QueryEscape x) (case map_of v k of None \<Rightarrow> [] | Some vs \<Rightarrow> vs)"

fun join :: "string list \<Rightarrow> string \<Rightarrow> string" where
  "join [] sep = []"
| "join [x] sep = x"
| "join (x # y # xs) sep = x @ sep @ join (y # xs) sep"

definition Values_Encode :: "Values \<Rightarrow> string" where
  "Values_Encode v = join (concat (map (encode_key v) (Values_keys v))) ''&''"

subsection \<open>Errors\<close>

text \<open>
  The errors of the standard library are opaque to the package: a transport error of
  \<open>net/http\<close> or of reading a body, an error of \<open>net/url\<close> (with its message, or
  an \<open>EscapeError\<close> with the bytes of a malformed escape), a decoding error of
  \<open>encoding/json\<close> (the body is not JSON, the body cannot be read, a JSON value does
  not fit the Go type it is decoded into).
\<close>

datatype net_error = NetError string
datatype url_error = UrlError string | EscapeError string
datatype json_error = SyntaxError | BodyReadError net_error | UnmarshalTypeError string

text \<open>
  The package's errors. \<open>ErrInvalidAuthRequest\<close> and \<open>ErrNoData\<close> are its two
  sentinel values; each \<open>fmt.Errorf\<close> of the source is a constructor holding the
  values formatted into the message, the wrapped error (\<open>%w\<close>) last.
  \<open>NilPointerPanic\<close> is the run-time panic of reading a field through a nil
  \<open>*SteamAuther\<close>, \<open>IndexPanic\<close> that of an index out of range.
\<close>

datatype error =
    ErrInvalidAuthRequest
  | ErrNoData
  | ErrGetRedirectUrl string url_error
  | ErrModeNotExpected string
  | ErrValidationRequest net_error
  | ErrReadAllBytes net_error
  | ErrParseApiUrl string url_error
  | ErrMakeGetRequest string net_error
  | ErrStatusNot200 string string
  | ErrDecodeBody string json_error
  | NilPointerPanic
  | IndexPanic

subsection \<open>\<open>net/url\<close>: unescaping and \<open>ParseQuery\<close>\<close>

definition ishex :: "char \<Rightarrow> bool" where
  "ishex c = ((byte CHR ''0'' \<le> byte c \<and> byte c \<le> byte CHR ''9'')
     \<or> (byte CHR ''a'' \<le> byte c \<and> byte c \<le> byte CHR ''f'')
     \<or> (byte CHR ''A'' \<le> byte c \<and> byte c \<le> byte CHR ''F''))"

definition unhex :: "char \<Rightarrow> nat" where
  "unhex c =
     (if byte CHR ''0'' \<le> byte c \<and> byte c \<le> byte CHR ''9'' then byte c - byte CHR ''0''
      else if byte CHR ''a'' \<le> byte c \<and> byte c \<le> byte CHR ''f'' then byte c - byte CHR ''a'' + 10
      else if byte CHR ''A'' \<le> byte c \<and> byte c \<le> byte CHR ''F'' then byte c - byte CHR ''A'' + 10
      else 0)"

text \<open>
  \<open>unescape\<close>: \<open>%XX\<close> becomes the byte \<open>XX\<close>; a \<open>%\<close> not followed by two
  hexadecimal digits is an \<open>EscapeError\<close> holding the bytes from the \<open>%\<close> on, at most
  three. In a query component (\<open>qc\<close>) a \<open>+\<close> becomes a space.
\<close>

fun unescape :: "bool \<Rightarrow> string \<Rightarrow> url_error + string" where
  "unescape qc [] = Inr []"
| "unescape qc (c # s) =
     (if c = CHR ''%'' then
        (case s of
           h1 # h2 # t \<Rightarrow>
             if ishex h1 \<and> ishex h2
             then map_sum id ((#) (char_of (unhex h1 * 16 + unhex h2))) (unescape qc t)
             else Inl (EscapeError [c, h1, h2])
         | _ \<Rightarrow> Inl (EscapeError (c # s)))
      else if qc \<and> c = CHR ''+'' then map_sum id ((#) CHR '' '') (unescape qc s)
      else map_sum id ((#) c) (unescape qc s))"

definition QueryUnescape :: "string \<Rightarrow> url_error + string" where
  "QueryUnescape s = unescape True s"

text \<open>
  One round of the loop of \<open>parseQuery\<close>, on the piece \<open>key\<close> of the query between two
  \<open>&\<close>. The state is the map filled so far and the error to return.
\<close>

definition parseQuery_piece :: "Values \<times> url_error option \<Rightarrow> string \<Rightarrow> Values \<times> url_error option" where
  "parseQuery_piece st key =
     (let (m, err) = st in
      if CHR '';'' \<in> set key then (m, Some (UrlError ''invalid semicolon separator in query''))
      else if key = [] then (m, err)
      else
        let (k, v) = Cut key CHR ''='' in
        case QueryUnescape k of
          Inl err1 \<Rightarrow> (m, if err = None then Some err1 else err)
        | Inr k' \<Rightarrow>
            (case QueryUnescape v of
               Inl err1 \<Rightarrow> (m, if err = None then Some err1 else err)
             | Inr v' \<Rightarrow> (Values_Add m k' v', err)))"

text \<open>\<open>ParseQuery\<close>: the loop cuts the query at every \<open>&\<close>; it does not run on \<open>""\<close>.\<close>

definition ParseQuery :: "string \<Rightarrow> Values \<times> url_error option" where
  "ParseQuery query =
     (if query = [] then ([], None) else foldl parseQuery_piece ([], None) (Split query CHR ''&''))"

subsection \<open>\<open>net/url\<close>: \<open>URL\<close>\<close>

text \<open>
  \<open>url.URL\<close> without \<open>User\<close>, \<open>RawPath\<close> and \<open>RawFragment\<close>. The model of
  \<open>Parse\<close> and \<open>String\<close> follows the library on URLs without user information,
  without a bracketed host and without a percent sign in host, path and fragment; the
  package parses two constants, both of that kind.
\<close>

record url =
  Scheme :: string
  Opaque :: string
  Host :: string
  Path :: string
  OmitHost :: bool
  ForceQuery :: bool
  RawQuery :: string
  Fragment :: string

definition is_letter :: "char \<Rightarrow> bool" where
  "is_letter c = ((byte CHR ''a'' \<le> byte c \<and> byte c \<le> byte CHR ''z'')
     \<or> (byte CHR ''A'' \<le> byte c \<and> byte c \<le> byte CHR ''Z''))"

definition is_digit :: "char \<Rightarrow> bool" where
  "is_digit c = (byte CHR ''0'' \<le> byte c \<and> byte c \<le> byte CHR ''9'')"

definition is_CTL :: "char \<Rightarrow> bool" where
  "is_CTL c = (byte c < 32 \<or> byte c = 127)"

definition ToLower_byte :: "char \<Rightarrow> char" where
  "ToLower_byte c =
     (if byte CHR ''A'' \<le> byte c \<and> byte c \<le> byte CHR ''Z'' then char_of (byte c + 32) else c)"

text \<open>
  \<open>getScheme\<close>: \<open>seen\<close> is \<open>rawURL[:i]\<close>, the third argument \<open>rawURL[i:]\<close>. The
  result is the scheme and the rest, or the error of a URL that starts with a colon.
\<close>

fun getScheme_loop :: "string \<Rightarrow> string \<Rightarrow> string \<Rightarrow> url_error + string \<times> string" where
  "getScheme_loop rawURL seen [] = Inr ([], rawURL)"
| "getScheme_loop rawURL seen (c # s) =
     (if is_letter c then getScheme_loop rawURL (seen @ [c]) s
      else if is_digit c \<or> c \<in> set ''+-.'' then
        (if seen = [] then Inr ([], rawURL) else getScheme_loop rawURL (seen @ [c]) s)
      else if c = CHR '':'' then
        (if seen = [] then Inl (UrlError ''missing protocol scheme'') else Inr (seen, s))
      else Inr ([], rawURL))"

definition getScheme :: "string \<Rightarrow> url_error + string \<times> string" where
  "getScheme rawURL = getScheme_loop rawURL [] rawURL"

text \<open>The port of a host, when it has one, is a colon and digits.\<close>

definition validOptionalPort :: "string \<Rightarrow> bool" where
  "validOptionalPort port =
     (case port of [] \<Rightarrow> True | c # ds \<Rightarrow> c = CHR '':'' \<and> list_all is_digit ds)"

definition parseHost :: "string \<Rightarrow> url_error + string" where
  "parseHost host =
     (if CHR '':'' \<in> set host
         \<and> \<not> validOptionalPort (CHR '':'' # rev (takeWhile (\<lambda>c. c \<noteq> CHR '':'') (rev host)))
      then Inl (UrlError ''invalid port after host'')
      else Inr host)"

text \<open>\<open>parse(rawURL, false)\<close>, after the fragment is cut off.\<close>

definition parse_rest :: "string \<Rightarrow> string \<Rightarrow> url_error + url" where
  "parse_rest scheme rest0 =
     (let u0 = \<lparr>Scheme = map ToLower_byte scheme, Opaque = [], Host = [], Path = [],
                OmitHost = False, ForceQuery = False, RawQuery = [], Fragment = []\<rparr>;
          (rest, u1) =
            (if HasSuffix rest0 CHR ''?'' \<and> Count rest0 CHR ''?'' = 1
             then (butlast rest0, u0\<lparr>ForceQuery := True\<rparr>)
             else (fst (Cut rest0 CHR ''?''), u0\<lparr>RawQuery := snd (Cut rest0 CHR ''?'')\<rparr>))
      in
      if \<not> HasPrefix rest ''/'' \<and> Scheme u1 \<noteq> [] then Inr (u1\<lparr>Opaque := rest\<rparr>)
      else if \<not> HasPrefix rest ''/'' \<and> CHR '':'' \<in> set (fst (Cut rest CHR ''/''))
      then Inl (UrlError ''first path segment in URL cannot contain colon'')
      else if (Scheme u1 \<noteq> [] \<or> \<not> HasPrefix rest ''///'') \<and> HasPrefix rest ''//'' then
        (let authority = takeWhile (\<lambda>c. c \<noteq> CHR ''/'') (drop 2 rest);
             rest' = dropWhile (\<lambda>c. c \<noteq> CHR ''/'') (drop 2 rest)
         in case parseHost authority of
              Inl err \<Rightarrow> Inl err
            | Inr h \<Rightarrow> Inr (u1\<lparr>Host := h, Path := rest'\<rparr>))
      else if Scheme u1 \<noteq> [] \<and> HasPrefix rest ''/'' then Inr (u1\<lparr>OmitHost := True, Path := rest\<rparr>)
      else Inr (u1\<lparr>Path := rest\<rparr>))"

definition parse :: "string \<Rightarrow> url_error + url" where
  "parse rawURL =
     (if list_ex is_CTL rawURL then Inl (UrlError ''net/url: invalid control character in URL'')
      else if rawURL = ''*'' then
        Inr \<lparr>Scheme = [], Opaque = [], Host = [], Path = ''*'', OmitHost = False,
             ForceQuery = False, RawQuery = [], Fragment = []\<rparr>
      else case getScheme rawURL of
             Inl err \<Rightarrow> Inl err
           | Inr (scheme, rest) \<Rightarrow> parse_rest scheme rest)"

text \<open>\<open>url.Parse\<close>.\<close>

definition url_Parse :: "string \<Rightarrow> url_error + url" where
  "url_Parse rawURL =
     (let (u, frag) = Cut rawURL CHR ''#'' in
      case parse u of
        Inl err \<Rightarrow> Inl err
      | Inr url \<Rightarrow> Inr (url\<lparr>Fragment := frag\<rparr>))"

text \<open>\<open>URL.Query\<close>: the parsed \<open>RawQuery\<close>, the error of parsing it dropped.\<close>

definition url_Query :: "url \<Rightarrow> Values" where
  "url_Query u = fst (ParseQuery (RawQuery u))"

text \<open>\<open>URL.String\<close>.\<close>

definition url_String :: "url \<Rightarrow> string" where
  "url_String u =
     (if Scheme u \<noteq> [] then Scheme u @ '':'' else [])
     @ (if Opaque u \<noteq> [] then Opaque u
        else
          (if Scheme u \<noteq> [] \<or> Host u \<noteq> [] then
             (if OmitHost u \<and> Host u = [] then []
              else (if Host u \<noteq> [] \<or> Path u \<noteq> [] then ''//'' else []) @ Host u)
           else [])
          @ (if Path u \<noteq> [] \<and> hd (Path u) \<noteq> CHR ''/'' \<and> Host u \<noteq> [] then ''/'' else [])
          @ (if Scheme u = [] \<and> Host u = [] \<and> CHR '':'' \<in> set (fst (Cut (Path u) CHR ''/''))
             then ''./'' else [])
          @ Path u)
     @ (if ForceQuery u \<or> RawQuery u \<noteq> [] then ''?'' @ RawQuery u else [])
     @ (if Fragment u \<noteq> [] then ''#'' @ Fragment u else [])"

subsection \<open>\<open>user.go\<close>\<close>

text \<open>Go's \<open>int\<close> on a 64-bit platform, read as two's complement by \<open>sint\<close>.\<close>

type_synonym go_int = "64 word"

definition PersonaStateOffline :: go_int where "PersonaStateOffline = 0"
definition PersonaStateOnline :: go_int where "PersonaStateOnline = 1"
definition PersonaStateBusy :: go_int where "PersonaStateBusy = 2"
definition PersonaStateAway :: go_int where "PersonaStateAway = 3"
definition PersonaStateSnooze :: go_int where "PersonaStateSnooze = 4"
definition PersonaStateLookingToTrade :: go_int where "PersonaStateLookingToTrade = 5"
definition PersonaStateLookingToPlay :: go_int where "PersonaStateLookingToPlay = 6"

definition ProfileStateConfigured :: go_int where "ProfileStateConfigured = 1"
definition ProfileStateNotConfigured :: go_int where "ProfileStateNotConfigured = 0"

definition CommunityVisibilityStatusNotVisible :: go_int where
  "CommunityVisibilityStatusNotVisible = 1"
definition CommunityVisibilityStatusPublic :: go_int where
  "CommunityVisibilityStatusPublic = 3"

record SteamUser =
  SteamID :: string
  PersonaName :: string
  PersonaState :: go_int
  ProfileUrl :: string
  ProfileState :: go_int
  CommunityVisibilityStatus :: go_int
  Avatar :: string
  AvatarMedium :: string
  AvatarFull :: string

text \<open>The zero value of \<open>SteamUser\<close>.\<close>

definition zero_SteamUser :: SteamUser where
  "zero_SteamUser =
     \<lparr>SteamID = [], PersonaName = [], PersonaState = 0, ProfileUrl = [], ProfileState = 0,
      CommunityVisibilityStatus = 0, Avatar = [], AvatarMedium = [], AvatarFull = []\<rparr>"

subsection \<open>\<open>encoding/json\<close>: decoding into the package's structs\<close>

text \<open>
  A JSON value as the decoder reads it. A number is an integer literal (\<open>JInt\<close>) or a
  literal with a fraction or an exponent (\<open>JFloat\<close>, the literal kept as text). The
  members of an object are in the order of the text, and a name may occur twice.
\<close>

datatype json =
    JNull
  | JBool bool
  | JInt int
  | JFloat string
  | JString string
  | JArray "json list"
  | JObject "(string \<times> json) list"

text \<open>
  The name of a member selects a struct field by its \<open>json\<close> tag, compared after case
  folding. The tags are ASCII; besides the ASCII letters of the other case, the Kelvin
  sign (U+212A, bytes E2 84 AA) folds to \<open>K\<close> and the long s (U+017F, bytes C5 BF)
  to \<open>S\<close>. No other character folds to an ASCII letter.
\<close>

definition ToUpper_byte :: "char \<Rightarrow> char" where
  "ToUpper_byte c =
     (if byte CHR ''a'' \<le> byte c \<and> byte c \<le> byte CHR ''z'' then char_of (byte c - 32) else c)"

function foldName :: "string \<Rightarrow> string" where
  "foldName s =
     (if s = [] then []
      else if take 2 s = [CHR 0xC5, CHR 0xBF] then CHR ''S'' # foldName (drop 2 s)
      else if take 3 s = [CHR 0xE2, CHR 0x84, CHR 0xAA] then CHR ''K'' # foldName (drop 3 s)
      else ToUpper_byte (hd s) # foldName (tl s))"
  by pat_completeness auto
termination
  by (relation "measure length") auto

declare foldName.simps [simp del]

definition field_is :: "string \<Rightarrow> string \<Rightarrow> bool" where
  "field_is key tag = (foldName key = foldName tag)"

text \<open>
  Decoding a JSON value into a Go \<open>string\<close> and into a Go \<open>int\<close>: \<open>null\<close> leaves
  the old value; a value of another JSON type, a number with a fraction or an exponent
  and a number out of the range of \<open>int\<close> are an \<open>UnmarshalTypeError\<close>.
\<close>

definition json_kind :: "json \<Rightarrow> string" where
  "json_kind j =
     (case j of JNull \<Rightarrow> ''null'' | JBool b \<Rightarrow> ''bool'' | JInt n \<Rightarrow> ''number''
      | JFloat x \<Rightarrow> ''number '' @ x | JString x \<Rightarrow> ''string'' | JArray xs \<Rightarrow> ''array''
      | JObject kvs \<Rightarrow> ''object'')"

definition decode_string :: "string \<Rightarrow> json \<Rightarrow> json_error + string" where
  "decode_string old j =
     (case j of JNull \<Rightarrow> Inr old | JString x \<Rightarrow> Inr x | _ \<Rightarrow> Inl (UnmarshalTypeError (json_kind j)))"

definition decode_int :: "go_int \<Rightarrow> json \<Rightarrow> json_error + go_int" where
  "decode_int old j =
     (case j of
        JNull \<Rightarrow> Inr old
      | JInt n \<Rightarrow>
          if - (2 ^ 63) \<le> n \<and> n < 2 ^ 63 then Inr (word_of_int n)
          else Inl (UnmarshalTypeError (json_kind j))
      | _ \<Rightarrow> Inl (UnmarshalTypeError (json_kind j)))"

text \<open>
  Decoding the members of an object into a struct: each member in turn, by the function
  \<open>f\<close> of the struct type; the first error is the error of the whole.
\<close>

fun decode_members ::
  "('a \<Rightarrow> string \<Rightarrow> json \<Rightarrow> json_error + 'a) \<Rightarrow> 'a \<Rightarrow> (string \<times> json) list \<Rightarrow> json_error + 'a" where
  "decode_members f old [] = Inr old"
| "decode_members f old ((key, j) # kvs) =
     (case f old key j of Inl err \<Rightarrow> Inl err | Inr new \<Rightarrow> decode_members f new kvs)"

definition decode_struct ::
  "('a \<Rightarrow> string \<Rightarrow> json \<Rightarrow> json_error + 'a) \<Rightarrow> 'a \<Rightarrow> json \<Rightarrow> json_error + 'a" where
  "decode_struct f old j =
     (case j of
        JNull \<Rightarrow> Inr old
      | JObject kvs \<Rightarrow> decode_members f old kvs
      | _ \<Rightarrow> Inl (UnmarshalTypeError (json_kind j)))"

text \<open>One member of a player object, by the tags of \<open>SteamUser\<close>; a member with another
  name is skipped.\<close>

definition SteamUser_member :: "SteamUser \<Rightarrow> string \<Rightarrow> json \<Rightarrow> json_error + SteamUser" where
  "SteamUser_member u key j =
     (if field_is key ''steamid'' then
        map_sum id (\<lambda>x. u\<lparr>SteamID := x\<rparr>) (decode_string (SteamID u) j)
      else if field_is key ''personaname'' then
        map_sum id (\<lambda>x. u\<lparr>PersonaName := x\<rparr>) (decode_string (PersonaName u) j)
      else if field_is key ''personastate'' then
        map_sum id (\<lambda>x. u\<lparr>PersonaState := x\<rparr>) (decode_int (PersonaState u) j)
      else if field_is key ''profileurl'' then
        map_sum id (\<lambda>x. u\<lparr>ProfileUrl := x\<rparr>) (decode_string (ProfileUrl u) j)
      else if field_is key ''profilestate'' then
        map_sum id (\<lambda>x. u\<lparr>ProfileState := x\<rparr>) (decode_int (ProfileState u) j)
      else if field_is key ''communityvisibilitystate'' then
        map_sum id (\<lambda>x. u\<lparr>CommunityVisibilityStatus := x\<rparr>)
          (decode_int (CommunityVisibilityStatus u) j)
      else if field_is key ''avatar'' then
        map_sum id (\<lambda>x. u\<lparr>Avatar := x\<rparr>) (decode_string (Avatar u) j)
      else if field_is key ''avatarmedium'' then
        map_sum id (\<lambda>x. u\<lparr>AvatarMedium := x\<rparr>) (decode_string (AvatarMedium u) j)
      else if field_is key ''avatarfull'' then
        map_sum id (\<lambda>x. u\<lparr>AvatarFull := x\<rparr>) (decode_string (AvatarFull u) j)
      else Inr u)"

definition decode_SteamUser :: "SteamUser \<Rightarrow> json \<Rightarrow> json_error + SteamUser" where
  "decode_SteamUser old j = decode_struct SteamUser_member old j"

text \<open>
  Decoding an array into \<open>[]SteamUser\<close>: element \<open>i\<close> of the array is decoded into
  element \<open>i\<close> of the slice when the slice has one (from an earlier member of the same
  name), into a zero value otherwise; the slice ends as long as the array. \<open>null\<close>
  makes the slice nil.
\<close>

fun decode_elements :: "SteamUser list \<Rightarrow> json list \<Rightarrow> json_error + SteamUser list" where
  "decode_elements old [] = Inr []"
| "decode_elements old (j # js) =
     (case decode_SteamUser (case old of [] \<Rightarrow> zero_SteamUser | x # xs \<Rightarrow> x) j of
        Inl err \<Rightarrow> Inl err
      | Inr u \<Rightarrow> map_sum id ((#) u) (decode_elements (tl old) js))"

definition decode_players :: "SteamUser list \<Rightarrow> json \<Rightarrow> json_error + SteamUser list" where
  "decode_players old j =
     (case j of
        JNull \<Rightarrow> Inr []
      | JArray js \<Rightarrow> decode_elements old js
      | _ \<Rightarrow> Inl (UnmarshalTypeError (json_kind j)))"

text \<open>
  The local variable \<open>data\<close> of \<open>GetSteamUser\<close>:
  \<open>struct { Response struct { Players []SteamUser `json:"players"` } `json:"response"` }\<close>.
\<close>

record Response_struct =
  Players :: "SteamUser list"

record data_struct =
  Response :: Response_struct

definition Response_member :: "Response_struct \<Rightarrow> string \<Rightarrow> json \<Rightarrow> json_error + Response_struct" where
  "Response_member r key j =
     (if field_is key ''players'' then
        map_sum id (\<lambda>x. r\<lparr>Players := x\<rparr>) (decode_players (Players r) j)
      else Inr r)"

definition data_member :: "data_struct \<Rightarrow> string \<Rightarrow> json \<Rightarrow> json_error + data_struct" where
  "data_member d key j =
     (if field_is key ''response'' then
        map_sum id (\<lambda>x. d\<lparr>Response := x\<rparr>) (decode_struct Response_member (Response d) j)
      else Inr d)"

text \<open>
  \<open>json.NewDecoder(res.Body).Decode(&data)\<close>, with \<open>data\<close> zero before: the body as
  the decoder reads it is an error (of reading, of syntax) or the first JSON value of
  the text.
\<close>

definition Decode_data :: "json_error + json \<Rightarrow> json_error + data_struct" where
  "Decode_data body =
     (case body of
        Inl err \<Rightarrow> Inl err
      | Inr j \<Rightarrow> decode_struct data_member \<lparr>Response = \<lparr>Players = []\<rparr>\<rparr> j)"

subsection \<open>\<open>net/http\<close> and the store\<close>

record http_request =
  Method :: string
  URL :: string
  ContentType :: string
  ReqBody :: string

text \<open>
  \<open>http.Response\<close>, with the body as its reader sees it: for \<open>io.ReadAll\<close> the
  bytes read or the error of reading them, for the JSON decoder the value read or its
  error.
\<close>

record 'b http_response =
  StatusCode :: int
  Status :: string
  Body :: 'b

type_synonym post_reply = "net_error + (net_error + string) http_response"
type_synonym get_reply = "net_error + (json_error + json) http_response"

text \<open>
  The network is outside the program: it answers a request with a transport error or a
  response, and its answer may depend on the requests sent before.
\<close>

record network =
  answer_post :: "http_request list \<Rightarrow> http_request \<Rightarrow> post_reply"
  answer_get :: "http_request list \<Rightarrow> http_request \<Rightarrow> get_reply"

text \<open>\<open>SteamAuther\<close> of \<open>auth.go\<close>.\<close>

record SteamAuther =
  apiKey :: string
  realm :: string

type_synonym addr = nat

text \<open>
  The part of the program state the package touches: the \<open>SteamAuther\<close> objects
  (the methods have the pointer receiver \<open>*SteamAuther\<close>; an address without an
  object is a nil pointer), the \<open>url.Values\<close> maps by address, the next free address,
  and the requests sent to the network so far, oldest first.
\<close>

record world =
  authers :: "addr \<Rightarrow> SteamAuther option"
  maps :: "addr \<Rightarrow> Values"
  next_addr :: addr
  requests :: "http_request list"

definition http_Post :: "network \<Rightarrow> string \<Rightarrow> string \<Rightarrow> string \<Rightarrow> world \<Rightarrow> world \<times> post_reply" where
  "http_Post net url contentType body w =
     (let req = \<lparr>Method = ''POST'', URL = url, ContentType = contentType, ReqBody = body\<rparr>
      in (w\<lparr>requests := requests w @ [req]\<rparr>, answer_post net (requests w) req))"

definition http_Get :: "network \<Rightarrow> string \<Rightarrow> world \<Rightarrow> world \<times> get_reply" where
  "http_Get net url w =
     (let req = \<lparr>Method = ''GET'', URL = url, ContentType = [], ReqBody = []\<rparr>
      in (w\<lparr>requests := requests w @ [req]\<rparr>, answer_get net (requests w) req))"

subsection \<open>\<open>auth.go\<close>\<close>

text \<open>\<open>New\<close> allocates a \<open>SteamAuther\<close> and returns the pointer to it.\<close>

definition New :: "string \<Rightarrow> string \<Rightarrow> world \<Rightarrow> world \<times> addr" where
  "New k r w =
     (w\<lparr>authers := (authers w)(next_addr w \<mapsto> \<lparr>apiKey = k, realm = r\<rparr>),
        next_addr := Suc (next_addr w)\<rparr>,
      next_addr w)"

definition OpenIdLoginUrl :: string where
  "OpenIdLoginUrl = ''https://steamcommunity.com/openid/login''"

text \<open>
  \<open>GetAuthUrl\<close>. It reads the store and writes nothing; \<open>q\<close> is a map of its own.
  \<open>sa.realm\<close> is read after the first two \<open>q.Set\<close>.
\<close>

definition GetAuthUrl :: "addr \<Rightarrow> string \<Rightarrow> world \<Rightarrow> string \<times> error option" where
  "GetAuthUrl sa returnUrl w =
     (case url_Parse OpenIdLoginUrl of
        Inl err \<Rightarrow> ([], Some (ErrGetRedirectUrl returnUrl err))
      | Inr u \<Rightarrow>
          let q0 = url_Query u;
              q1 = Values_Set q0 ''openid.ns'' ''http://specs.openid.net/auth/2.0'';
              q2 = Values_Set q1 ''openid.mode'' ''checkid_setup''
          in case authers w sa of
               None \<Rightarrow> ([], Some NilPointerPanic)
             | Some a \<Rightarrow>
                 let q3 = Values_Set q2 ''openid.realm'' (realm a);
                     q4 = Values_Set q3 ''openid.return_to'' returnUrl;
                     q5 = Values_Set q4 ''openid.claimed_id''
                            ''http://specs.openid.net/auth/2.0/identifier_select'';
                     q6 = Values_Set q5 ''openid.identity''
                            ''http://specs.openid.net/auth/2.0/identifier_select'';
                     u' = u\<lparr>RawQuery := Values_Encode q6\<rparr>
                 in (url_String u', None))"

text \<open>
  \<open>ValidateCallback\<close>. \<open>vals\<close> is the address of the caller's map: \<open>vals.Set\<close>
  writes to that map. \<open>p[len(p)-1]\<close> panics on an empty slice.
\<close>

definition last_segment :: "string list \<Rightarrow> string \<times> error option" where
  "last_segment p = (if length p = 0 then ([], Some IndexPanic) else (p ! (length p - 1), None))"

definition ValidateCallback :: "network \<Rightarrow> addr \<Rightarrow> addr \<Rightarrow> world \<Rightarrow> world \<times> string \<times> error option" where
  "ValidateCallback net sa vals w =
     (if Values_Get (maps w vals) ''openid.mode'' \<noteq> ''id_res''
      then (w, [], Some (ErrModeNotExpected (hex_string (Values_Get (maps w vals) ''openid.mode''))))
      else
        let w1 = w\<lparr>maps := (maps w)(vals := Values_Set (maps w vals) ''openid.mode'' ''check_authentication'')\<rparr>;
            (w2, reply) = http_Post net OpenIdLoginUrl ''application/x-www-form-urlencoded''
                            (Values_Encode (maps w1 vals)) w1
        in case reply of
             Inl err \<Rightarrow> (w2, [], Some (ErrValidationRequest err))
           | Inr res \<Rightarrow>
               (case Body res of
                  Inl err \<Rightarrow> (w2, [], Some (ErrReadAllBytes err))
                | Inr bodyBytes \<Rightarrow>
                    if \<not> Contains bodyBytes ''is_valid:true''
                    then (w2, [], Some ErrInvalidAuthRequest)
                    else
                      let p = Split (Values_Get (maps w2 vals) ''openid.claimed_id'') CHR ''/''
                      in (w2, last_segment p)))"

text \<open>
  \<open>GetSteamUser\<close>. The result is \<open>(*SteamUser, error)\<close>: \<open>None\<close> is the nil
  pointer. \<open>sa.apiKey\<close> is read after the URL is parsed.
\<close>

definition GetSteamUser ::
  "network \<Rightarrow> addr \<Rightarrow> string \<Rightarrow> world \<Rightarrow> world \<times> SteamUser option \<times> error option" where
  "GetSteamUser net sa steamid64 w =
     (case url_Parse ''http://api.steampowered.com/ISteamUser/GetPlayerSummaries/v0002'' of
        Inl err \<Rightarrow> (w, None, Some (ErrParseApiUrl steamid64 err))
      | Inr u \<Rightarrow>
          (case authers w sa of
             None \<Rightarrow> (w, None, Some NilPointerPanic)
           | Some a \<Rightarrow>
               let q0 = url_Query u;
                   q1 = Values_Set q0 ''key'' (apiKey a);
                   q2 = Values_Set q1 ''steamids'' steamid64;
                   reqUrl = url_String (u\<lparr>RawQuery := Values_Encode q2\<rparr>);
                   (w1, reply) = http_Get net reqUrl w
               in case reply of
                    Inl err \<Rightarrow> (w1, None, Some (ErrMakeGetRequest steamid64 err))
                  | Inr res \<Rightarrow>
                      if StatusCode res \<noteq> 200
                      then (w1, None, Some (ErrStatusNot200 steamid64 (Status res)))
                      else
                        (case Decode_data (Body res) of
                           Inl err \<Rightarrow> (w1, None, Some (ErrDecodeBody steamid64 err))
                         | Inr data \<Rightarrow>
                             if length (Players (Response data)) < 1
                             then (w1, None, Some ErrNoData)
                             else (w1, Some (Players (Response data) ! 0), None))))"

subsection \<open>What the operations send, and runs of calls\<close>

text \<open>The request \<open>ValidateCallback\<close> posts when the caller's map holds \<open>v\<close>: the
  form of \<open>v\<close> with \<open>openid.mode\<close> set to \<open>check_authentication\<close>.\<close>

definition confirmation_request :: "Values \<Rightarrow> http_request" where
  "confirmation_request v =
     \<lparr>Method = ''POST'', URL = OpenIdLoginUrl, ContentType = ''application/x-www-form-urlencoded'',
      ReqBody = Values_Encode (Values_Set v ''openid.mode'' ''check_authentication'')\<rparr>"

text \<open>The store after that request is sent.\<close>

definition posted :: "addr \<Rightarrow> world \<Rightarrow> world" where
  "posted vals w =
     w\<lparr>maps := (maps w)(vals := Values_Set (maps w vals) ''openid.mode'' ''check_authentication''),
       requests := requests w @ [confirmation_request (maps w vals)]\<rparr>"

text \<open>The request \<open>GetSteamUser\<close> sends for the key \<open>k\<close> and the identifier \<open>steamid64\<close>.\<close>

definition profile_request :: "string \<Rightarrow> string \<Rightarrow> http_request" where
  "profile_request k steamid64 =
     \<lparr>Method = ''GET'',
      URL = ''http://api.steampowered.com/ISteamUser/GetPlayerSummaries/v0002?key='' @ QueryEscape k
            @ ''&steamids='' @ QueryEscape steamid64,
      ContentType = [], ReqBody = []\<rparr>"

text \<open>A caller's calls of the three methods on one \<open>SteamAuther\<close>, the results dropped.\<close>

datatype call =
    Call_GetAuthUrl string
  | Call_ValidateCallback addr
  | Call_GetSteamUser string

fun call_step :: "network \<Rightarrow> addr \<Rightarrow> world \<Rightarrow> call \<Rightarrow> world" where
  "call_step net sa w (Call_GetAuthUrl returnUrl) = (case GetAuthUrl sa returnUrl w of (u, err) \<Rightarrow> w)"
| "call_step net sa w (Call_ValidateCallback vals) = fst (ValidateCallback net sa vals w)"
| "call_step net sa w (Call_GetSteamUser steamid64) = fst (GetSteamUser net sa steamid64 w)"

definition run_calls :: "network \<Rightarrow> addr \<Rightarrow> call list \<Rightarrow> world \<Rightarrow> world" where
  "run_calls net sa cs w = foldl (call_step net sa) w cs"

text \<open>The values of the members of an object that select the field with the tag \<open>tag\<close>.\<close>

definition members_named :: "string \<Rightarrow> (string \<times> json) list \<Rightarrow> json list" where
  "members_named tag kvs = map snd (filter (\<lambda>kv. field_is (fst kv) tag) kvs)"

text \<open>
  A well-formed player object for the record \<open>u\<close>: for each documented field one member
  with the field's tag, holding the field's value, a string as a JSON string and an
  integer as an integer literal. Members with other names may stand anywhere.
\<close>

definition player_object :: "(string \<times> json) list \<Rightarrow> SteamUser \<Rightarrow> bool" where
  "player_object kvs u =
     (members_named ''steamid'' kvs = [JString (SteamID u)]
      \<and> members_named ''personaname'' kvs = [JString (PersonaName u)]
      \<and> members_named ''personastate'' kvs = [JInt (sint (PersonaState u))]
      \<and> members_named ''profileurl'' kvs = [JString (ProfileUrl u)]
      \<and> members_named ''profilestate'' kvs = [JInt (sint (ProfileState u))]
      \<and> members_named ''communityvisibilitystate'' kvs = [JInt (sint (CommunityVisibilityStatus u))]
      \<and> members_named ''avatar'' kvs = [JString (Avatar u)]
      \<and> members_named ''avatarmedium'' kvs = [JString (AvatarMedium u)]
      \<and> members_named ''avatarfull'' kvs = [JString (AvatarFull u)])"

text \<open>The envelope of the profile API around the player objects.\<close>

definition envelope :: "json list \<Rightarrow> json" where
  "envelope players = JObject [(''response'', JObject [(''players'', JArray players)])]"

subsection \<open>Example inputs\<close>

text \<open>A store with one \<open>SteamAuther\<close> at address 1 and callback maps at the addresses 0
  to 3: a positive assertion, a cancelled sign-in, an empty mode, no mode at all.\<close>

definition ex_world :: world where
  "ex_world =
     \<lparr>authers = Map.empty(1 \<mapsto> \<lparr>apiKey = ''KEY'', realm = ''http://localhost:8080''\<rparr>),
      maps = (\<lambda>a. [])
        (0 := [(''openid.mode'', [''id_res'']),
               (''openid.claimed_id'', [''https://steamcommunity.com/openid/id/76561197960287930''])],
         1 := [(''openid.mode'', [''cancel''])],
         2 := [(''openid.mode'', [[]])]),
      next_addr = 2, requests = []\<rparr>"

definition ex_player :: SteamUser where
  "ex_player =
     \<lparr>SteamID = ''76561197960287930'', PersonaName = ''Rabscuttle'', PersonaState = PersonaStateAway,
      ProfileUrl = ''https://steamcommunity.com/id/rabscuttle/'', ProfileState = ProfileStateConfigured,
      CommunityVisibilityStatus = CommunityVisibilityStatusPublic,
      Avatar = ''https://avatars.example/a.jpg'', AvatarMedium = ''https://avatars.example/a_medium.jpg'',
      AvatarFull = ''https://avatars.example/a_full.jpg''\<rparr>"

definition ex_player_json :: "(string \<times> json) list" where
  "ex_player_json =
     [(''steamid'', JString ''76561197960287930''),
      (''communityvisibilitystate'', JInt 3),
      (''profilestate'', JInt 1),
      (''personaname'', JString ''Rabscuttle''),
      (''profileurl'', JString ''https://steamcommunity.com/id/rabscuttle/''),
      (''avatar'', JString ''https://avatars.example/a.jpg''),
      (''avatarmedium'', JString ''https://avatars.example/a_medium.jpg''),
      (''avatarfull'', JString ''https://avatars.example/a_full.jpg''),
      (''lastlogoff'', JInt 1700000000),
      (''personastate'', JInt 3)]"

text \<open>Networks that answer every request the same way.\<close>

definition ex_net :: "post_reply \<Rightarrow> get_reply \<Rightarrow> network" where
  "ex_net p g = \<lparr>answer_post = (\<lambda>sent req. p), answer_get = (\<lambda>sent req. g)\<rparr>"

definition ok_response :: "'b \<Rightarrow> 'b http_response" where
  "ok_response b = \<lparr>StatusCode = 200, Status = ''200 OK'', Body = b\<rparr>"

definition error_response :: "'b \<Rightarrow> 'b http_response" where
  "error_response b = \<lparr>StatusCode = 500, Status = ''500 Internal Server Error'', Body = b\<rparr>"

definition valid_body :: string where
  "valid_body = ''ns:http://specs.openid.net/auth/2.0'' @ [CHR 10] @ ''is_valid:true'' @ [CHR 10]"

definition invalid_body :: string where
  "invalid_body = ''ns:http://specs.openid.net/auth/2.0'' @ [CHR 10] @ ''is_valid:false'' @ [CHR 10]"

definition net_valid :: network where
  "net_valid = ex_net (Inr (ok_response (Inr valid_body))) (Inr (ok_response (Inr (envelope [JObject ex_player_json]))))"

definition net_invalid :: network where
  "net_invalid = ex_net (Inr (ok_response (Inr invalid_body))) (Inr (ok_response (Inr (envelope []))))"

definition net_500 :: network where
  "net_500 = ex_net (Inr (error_response (Inr ''Internal Server Error'')))
               (Inr (error_response (Inr (envelope [JObject ex_player_json]))))"

definition net_down :: network where
  "net_down = ex_net (Inl (NetError ''dial tcp: connection refused''))
                (Inl (NetError ''dial tcp: connection refused''))"

section \<open>Properties\<close>

subsection \<open>Splitting and the final segment\<close>

lemma Split_from_not_Nil: "Split_from sep cur s \<noteq> []"
  by (induction s arbitrary: cur) auto

lemma last_Split_from:
  "last (Split_from sep cur s) =
     (if sep \<in> set s then rev (takeWhile (\<lambda>c. c \<noteq> sep) (rev s)) else cur @ s)"
proof (induction s arbitrary: cur)
  case Nil
  show ?case by simp
next
  case (Cons c s)
  show ?case
  proof (cases "c = sep")
    case True
    then show ?thesis
      using Cons.IH [of "[]"] Split_from_not_Nil [of sep "[]" s]
      by (auto simp: takeWhile_append)
  next
    case False
    then show ?thesis
      using Cons.IH [of "cur @ [c]"]
      by (auto simp: takeWhile_append)
  qed
qed

lemma last_segment_Split: "last_segment (Split s sep) = (last (Split s sep), None)"
  by (simp add: last_segment_def Split_def Split_from_not_Nil last_conv_nth)

lemma final_segment_whole: "sep \<notin> set s \<Longrightarrow> last (Split s sep) = s"
  by (simp add: Split_def last_Split_from)

lemma final_segment_suffix:
  "\<exists>pre. s = pre @ last (Split s sep) \<and> (pre = [] \<or> last pre = sep)"
proof (cases "sep \<in> set s")
  case False
  then show ?thesis by (simp add: final_segment_whole)
next
  case True
  let ?t = "takeWhile (\<lambda>c. c \<noteq> sep) (rev s)"
  let ?d = "dropWhile (\<lambda>c. c \<noteq> sep) (rev s)"
  have "rev s = ?t @ ?d" by simp
  then have s: "s = rev ?d @ rev ?t" by (metis rev_append rev_rev_ident)
  from True have "?d \<noteq> []" by simp
  then have "hd ?d = sep" using hd_dropWhile [of "\<lambda>c. c \<noteq> sep" "rev s"] by simp
  with \<open>?d \<noteq> []\<close> have "last (rev ?d) = sep" by (simp add: last_rev)
  with s True show ?thesis
    by (auto simp: Split_def last_Split_from intro!: exI [of _ "rev ?d"])
qed

lemma final_segment_no_sep: "sep \<notin> set (last (Split s sep))"
proof (cases "sep \<in> set s")
  case False
  then show ?thesis by (simp add: final_segment_whole)
next
  case True
  then show ?thesis
    using set_takeWhileD [of sep "\<lambda>c. c \<noteq> sep" "rev s"]
    by (auto simp: Split_def last_Split_from)
qed

text \<open>\<open>Contains\<close> is the substring relation.\<close>

lemma HasPrefix_iff: "HasPrefix s p \<longleftrightarrow> (\<exists>post. s = p @ post)"
  by (induction s p rule: HasPrefix.induct) auto

lemma Contains_iff: "Contains s sub \<longleftrightarrow> (\<exists>pre post. s = pre @ sub @ post)"
proof (induction s)
  case Nil
  show ?case by (cases sub) auto
next
  case (Cons c s)
  have "(\<exists>pre post. c # s = pre @ sub @ post)
          \<longleftrightarrow> (\<exists>post. c # s = sub @ post) \<or> (\<exists>pre post. s = pre @ sub @ post)"
  proof
    assume "\<exists>pre post. c # s = pre @ sub @ post"
    then obtain pre post where e: "c # s = pre @ sub @ post" by blast
    show "(\<exists>post. c # s = sub @ post) \<or> (\<exists>pre post. s = pre @ sub @ post)"
    proof (cases pre)
      case Nil
      with e show ?thesis by auto
    next
      case (Cons a pre')
      with e have "s = pre' @ sub @ post" by simp
      then show ?thesis by blast
    qed
  next
    assume "(\<exists>post. c # s = sub @ post) \<or> (\<exists>pre post. s = pre @ sub @ post)"
    then show "\<exists>pre post. c # s = pre @ sub @ post"
    proof
      assume "\<exists>post. c # s = sub @ post"
      then obtain post where "c # s = [] @ sub @ post" by auto
      then show ?thesis by blast
    next
      assume "\<exists>pre post. s = pre @ sub @ post"
      then obtain pre post where "c # s = (c # pre) @ sub @ post" by auto
      then show ?thesis by blast
    qed
  qed
  with Cons show ?case by (simp add: HasPrefix_iff)
qed

subsection \<open>\<open>Values\<close>\<close>

lemma map_of_Values_Set: "map_of (Values_Set v k x) = (map_of v)(k \<mapsto> [x])"
  by (induction v k x rule: Values_Set.induct) (auto simp: fun_eq_iff)

lemma Values_Get_Set_other: "key \<noteq> k \<Longrightarrow> Values_Get (Values_Set v k x) key = Values_Get v key"
  by (simp add: Values_Get_def map_of_Values_Set)

lemma Values_Get_Set_same: "Values_Get (Values_Set v k x) k = x"
  by (simp add: Values_Get_def map_of_Values_Set)

subsection \<open>\<open>ValidateCallback\<close>\<close>

lemma ValidateCallback_mismatch:
  "Values_Get (maps w vals) ''openid.mode'' \<noteq> ''id_res'' \<Longrightarrow>
   ValidateCallback net sa vals w =
     (w, [], Some (ErrModeNotExpected (hex_string (Values_Get (maps w vals) ''openid.mode''))))"
  by (simp add: ValidateCallback_def)

lemma ValidateCallback_id_res:
  "Values_Get (maps w vals) ''openid.mode'' = ''id_res'' \<Longrightarrow>
   ValidateCallback net sa vals w =
     (posted vals w,
      case answer_post net (requests w) (confirmation_request (maps w vals)) of
        Inl err \<Rightarrow> ([], Some (ErrValidationRequest err))
      | Inr res \<Rightarrow>
          (case Body res of
             Inl err \<Rightarrow> ([], Some (ErrReadAllBytes err))
           | Inr bodyBytes \<Rightarrow>
               if Contains bodyBytes ''is_valid:true''
               then (last (Split (Values_Get (maps w vals) ''openid.claimed_id'') CHR ''/''), None)
               else ([], Some ErrInvalidAuthRequest)))"
  by (simp add: ValidateCallback_def http_Post_def confirmation_request_def posted_def Let_def
      last_segment_Split Values_Get_Set_other split: sum.splits)

lemmas ex_defs =
  ex_world_def ex_net_def net_valid_def net_invalid_def net_500_def net_down_def
  ok_response_def error_response_def valid_body_def invalid_body_def Values_Get_def

text \<open>
  C1. When \<open>openid.mode\<close> is \<open>id_res\<close> and the body of the confirmation response
  contains \<open>is_valid:true\<close>, \<open>ValidateCallback\<close> returns without error the final
  segment of the \<open>openid.claimed_id\<close> the caller passed: the part after the last
  \<open>/\<close>, whatever bytes it holds. For the claimed identifier
  \<open>https://steamcommunity.com/openid/id/76561197960287930\<close> that is
  \<open>76561197960287930\<close>.
\<close>

theorem ValidateCallback_returns_final_segment:
  assumes "Values_Get (maps w vals) ''openid.mode'' = ''id_res''"
    and "answer_post net (requests w) (confirmation_request (maps w vals)) = Inr res"
    and "Body res = Inr body"
    and "Contains body ''is_valid:true''"
  shows "(\<exists>pre seg.
            snd (ValidateCallback net sa vals w) = (seg, None)
            \<and> seg = last (Split (Values_Get (maps w vals) ''openid.claimed_id'') CHR ''/'')
            \<and> Values_Get (maps w vals) ''openid.claimed_id'' = pre @ seg
            \<and> (pre = [] \<or> last pre = CHR ''/'')
            \<and> CHR ''/'' \<notin> set seg)
         \<and> (Values_Get (maps w vals) ''openid.claimed_id''
               = ''https://steamcommunity.com/openid/id/76561197960287930''
             \<longrightarrow> snd (ValidateCallback net sa vals w) = (''76561197960287930'', None))"
proof -
  let ?c = "Values_Get (maps w vals) ''openid.claimed_id''"
  have r: "snd (ValidateCallback net sa vals w) = (last (Split ?c CHR ''/''), None)"
    using assms by (simp add: ValidateCallback_id_res)
  obtain pre where "?c = pre @ last (Split ?c CHR ''/'')" "pre = [] \<or> last pre = CHR ''/''"
    using final_segment_suffix [of ?c "CHR ''/''"] by blast
  with r have "\<exists>pre seg.
            snd (ValidateCallback net sa vals w) = (seg, None)
            \<and> seg = last (Split ?c CHR ''/'')
            \<and> ?c = pre @ seg
            \<and> (pre = [] \<or> last pre = CHR ''/'')
            \<and> CHR ''/'' \<notin> set seg"
    using final_segment_no_sep [of "CHR ''/''" ?c] by blast
  moreover have "?c = ''https://steamcommunity.com/openid/id/76561197960287930''
      \<longrightarrow> snd (ValidateCallback net sa vals w) = (''76561197960287930'', None)"
    using r by (simp add: Split_def)
  ultimately show ?thesis by blast
qed

theorem ValidateCallback_returns_final_segment_witness:
  "snd (ValidateCallback net_valid 1 0 ex_world) = (''76561197960287930'', None)"
proof -
  have 1: "Values_Get (maps ex_world 0) ''openid.mode'' = ''id_res''"
    by (simp add: ex_defs)
  have 2: "answer_post net_valid (requests ex_world) (confirmation_request (maps ex_world 0))
             = Inr (ok_response (Inr valid_body))"
    by (simp add: net_valid_def ex_net_def)
  have 3: "Body (ok_response (Inr valid_body) :: (net_error + string) http_response) = Inr valid_body"
    by (simp add: ok_response_def)
  have 4: "Contains valid_body ''is_valid:true''"
    by (simp add: valid_body_def)
  have 5: "Values_Get (maps ex_world 0) ''openid.claimed_id''
             = ''https://steamcommunity.com/openid/id/76561197960287930''"
    by (simp add: ex_defs)
  show ?thesis
    using ValidateCallback_returns_final_segment [OF 1 2 3 4, of 1] 5 by blast
qed

text \<open>
  C2. When \<open>openid.mode\<close> is \<open>id_res\<close> and the body of the confirmation response
  does not contain \<open>is_valid:true\<close>, \<open>ValidateCallback\<close> returns the empty string
  and \<open>ErrInvalidAuthRequest\<close>. It returns that error in no other case: a failed
  request and a body that cannot be read give other errors.
\<close>

theorem ValidateCallback_invalid_assertion:
  assumes "Values_Get (maps w vals) ''openid.mode'' = ''id_res''"
  shows "((\<exists>res body.
             answer_post net (requests w) (confirmation_request (maps w vals)) = Inr res
             \<and> Body res = Inr body \<and> \<not> Contains body ''is_valid:true'')
          \<longrightarrow> snd (ValidateCallback net sa vals w) = ([], Some ErrInvalidAuthRequest))
         \<and> (snd (snd (ValidateCallback net sa vals w)) = Some ErrInvalidAuthRequest
          \<longrightarrow> (\<exists>res body.
             answer_post net (requests w) (confirmation_request (maps w vals)) = Inr res
             \<and> Body res = Inr body \<and> \<not> Contains body ''is_valid:true''))"
  using assms by (auto simp: ValidateCallback_id_res split: sum.splits if_splits)

theorem ValidateCallback_invalid_assertion_witness:
  "snd (ValidateCallback net_invalid 1 0 ex_world) = ([], Some ErrInvalidAuthRequest)"
proof -
  have 1: "Values_Get (maps ex_world 0) ''openid.mode'' = ''id_res''"
    by (simp add: ex_defs)
  have 2: "\<exists>res body.
      answer_post net_invalid (requests ex_world) (confirmation_request (maps ex_world 0)) = Inr res
      \<and> Body res = Inr body \<and> \<not> Contains body ''is_valid:true''"
    by (simp add: net_invalid_def ex_net_def ok_response_def invalid_body_def)
  show ?thesis
    using ValidateCallback_invalid_assertion [OF 1, of net_invalid 1] 2 by blast
qed

text \<open>
  C3. When \<open>openid.mode\<close> is anything but \<open>id_res\<close>, \<open>ValidateCallback\<close> returns
  the empty string and the error of an unexpected mode, and leaves the store as it was:
  no request has been sent.
\<close>

theorem ValidateCallback_rejects_other_modes:
  assumes "Values_Get (maps w vals) ''openid.mode'' \<noteq> ''id_res''"
  shows "ValidateCallback net sa vals w =
           (w, [], Some (ErrModeNotExpected (hex_string (Values_Get (maps w vals) ''openid.mode''))))
         \<and> requests (fst (ValidateCallback net sa vals w)) = requests w"
  using assms by (simp add: ValidateCallback_mismatch)

theorem ValidateCallback_rejects_other_modes_witness:
  "ValidateCallback net_valid 1 1 ex_world = (ex_world, [], Some (ErrModeNotExpected ''63616e63656c''))
   \<and> ValidateCallback net_valid 1 2 ex_world = (ex_world, [], Some (ErrModeNotExpected []))
   \<and> ValidateCallback net_valid 1 3 ex_world = (ex_world, [], Some (ErrModeNotExpected []))"
proof -
  have m: "Values_Get (maps ex_world 1) ''openid.mode'' \<noteq> ''id_res''"
    "Values_Get (maps ex_world 2) ''openid.mode'' \<noteq> ''id_res''"
    "Values_Get (maps ex_world 3) ''openid.mode'' \<noteq> ''id_res''"
    by (simp_all add: ex_defs)
  have h: "hex_string (Values_Get (maps ex_world 1) ''openid.mode'') = ''63616e63656c''"
    "hex_string (Values_Get (maps ex_world 2) ''openid.mode'') = []"
    "hex_string (Values_Get (maps ex_world 3) ''openid.mode'') = []"
    by (simp_all add: ex_defs hex_string_def lowerhex_def byte_def)
  note r = ValidateCallback_rejects_other_modes [THEN conjunct1, of ex_world _ net_valid 1]
  show ?thesis
    using r [OF m(1)] r [OF m(2)] r [OF m(3)] unfolding h by (intro conjI)
qed

text \<open>
  C4, at a response with the status 500: \<open>ValidateCallback\<close> does not read the status
  of the confirmation response. A response \<open>500 Internal Server Error\<close> whose body lacks
  the marker gives \<open>ErrInvalidAuthRequest\<close>, the error of a rejected assertion, and no
  error that wraps the failure; only a failed request gives \<open>ErrValidationRequest\<close>.
\<close>

theorem ValidateCallback_ignores_status:
  "snd (ValidateCallback net_500 1 0 ex_world) = ([], Some ErrInvalidAuthRequest)
   \<and> StatusCode (error_response (Inr ''Internal Server Error'' :: net_error + string)) = 500
   \<and> snd (ValidateCallback net_down 1 0 ex_world)
       = ([], Some (ErrValidationRequest (NetError ''dial tcp: connection refused'')))"
  by (simp add: ValidateCallback_id_res ex_defs)

text \<open>
  C5, as the code has it. \<open>ValidateCallback\<close> builds no new map: with the mode
  \<open>id_res\<close> it sets \<open>openid.mode\<close> to \<open>check_authentication\<close> in the caller's
  map and posts the form of that map, once. Every other key of the caller's map, and
  every other map, keeps its value. With another mode the store is untouched.
\<close>

theorem ValidateCallback_overwrites_mode_in_place:
  "(\<forall>a. a \<noteq> vals \<longrightarrow> maps (fst (ValidateCallback net sa vals w)) a = maps w a)
   \<and> (\<forall>key. key \<noteq> ''openid.mode'' \<longrightarrow>
         map_of (maps (fst (ValidateCallback net sa vals w)) vals) key = map_of (maps w vals) key)
   \<and> (if Values_Get (maps w vals) ''openid.mode'' = ''id_res''
      then map_of (maps (fst (ValidateCallback net sa vals w)) vals) ''openid.mode''
             = Some [''check_authentication'']
           \<and> requests (fst (ValidateCallback net sa vals w))
             = requests w @
               [\<lparr>Method = ''POST'', URL = OpenIdLoginUrl,
                 ContentType = ''application/x-www-form-urlencoded'',
                 ReqBody = Values_Encode (maps (fst (ValidateCallback net sa vals w)) vals)\<rparr>]
      else fst (ValidateCallback net sa vals w) = w)"
proof (cases "Values_Get (maps w vals) ''openid.mode'' = ''id_res''")
  case True
  then show ?thesis
    by (simp add: ValidateCallback_id_res posted_def map_of_Values_Set confirmation_request_def)
next
  case False
  then show ?thesis
    by (simp add: ValidateCallback_mismatch)
qed

theorem ValidateCallback_overwrites_mode_in_place_witness:
  "maps (fst (ValidateCallback net_valid 1 0 ex_world)) 1 = maps ex_world 1
   \<and> map_of (maps (fst (ValidateCallback net_valid 1 0 ex_world)) 0) ''openid.claimed_id''
       = Some [''https://steamcommunity.com/openid/id/76561197960287930'']
   \<and> map_of (maps (fst (ValidateCallback net_valid 1 0 ex_world)) 0) ''openid.mode''
       = Some [''check_authentication'']
   \<and> fst (ValidateCallback net_valid 1 1 ex_world) = ex_world"
proof -
  have 1: "Values_Get (maps ex_world 0) ''openid.mode'' = ''id_res''"
    and 2: "Values_Get (maps ex_world 1) ''openid.mode'' \<noteq> ''id_res''"
    and 3: "map_of (maps ex_world 0) ''openid.claimed_id''
              = Some [''https://steamcommunity.com/openid/id/76561197960287930'']"
    by (simp_all add: ex_defs)
  have 4: "(1::nat) \<noteq> 0" "''openid.claimed_id'' \<noteq> ''openid.mode''"
    by simp_all
  show ?thesis
    using ValidateCallback_overwrites_mode_in_place [of 0 net_valid 1 ex_world]
      ValidateCallback_overwrites_mode_in_place [of 1 net_valid 1 ex_world] 1 2 3 4
    by metis
qed

text \<open>
  C5 as stated fails: after a call on a positive assertion the caller's map no longer
  holds \<open>id_res\<close> under \<open>openid.mode\<close>.
\<close>

theorem ValidateCallback_new_mapping_counterexample:
  "Values_Get (maps ex_world 0) ''openid.mode'' = ''id_res''
   \<and> Values_Get (maps (fst (ValidateCallback net_valid 1 0 ex_world)) 0) ''openid.mode''
       = ''check_authentication''"
  by (simp add: ValidateCallback_id_res posted_def ex_world_def Values_Get_def)

text \<open>
  C10. Splitting at \<open>/\<close> gives at least one piece for every string, so the index
  \<open>len(p)-1\<close> is in range and \<open>ValidateCallback\<close> never panics. A confirmed callback
  with an empty or absent \<open>openid.claimed_id\<close> succeeds with the empty string; a
  claimed identifier without \<open>/\<close> is returned whole.
\<close>

theorem ValidateCallback_extraction_total:
  "Split s CHR ''/'' \<noteq> []
   \<and> snd (last_segment (Split s CHR ''/'')) = None
   \<and> snd (snd (ValidateCallback net sa vals w)) \<noteq> Some IndexPanic
   \<and> snd (snd (ValidateCallback net sa vals w)) \<noteq> Some NilPointerPanic
   \<and> (Values_Get (maps w vals) ''openid.mode'' = ''id_res''
      \<and> answer_post net (requests w) (confirmation_request (maps w vals)) = Inr res
      \<and> Body res = Inr body \<and> Contains body ''is_valid:true''
      \<and> CHR ''/'' \<notin> set (Values_Get (maps w vals) ''openid.claimed_id'')
      \<longrightarrow> snd (ValidateCallback net sa vals w)
            = (Values_Get (maps w vals) ''openid.claimed_id'', None))"
proof -
  have "snd (snd (ValidateCallback net sa vals w)) \<noteq> Some IndexPanic
      \<and> snd (snd (ValidateCallback net sa vals w)) \<noteq> Some NilPointerPanic"
    by (cases "Values_Get (maps w vals) ''openid.mode'' = ''id_res''")
      (auto simp: ValidateCallback_id_res ValidateCallback_mismatch split: sum.splits)
  then show ?thesis
    by (simp add: ValidateCallback_id_res final_segment_whole last_segment_Split)
      (simp add: Split_def Split_from_not_Nil)
qed

theorem ValidateCallback_extraction_total_witness:
  "snd (ValidateCallback net_valid 1 0 (ex_world\<lparr>maps := \<lambda>a. [(''openid.mode'', [''id_res''])]\<rparr>))
     = ([], None)
   \<and> snd (ValidateCallback net_valid 1 0
        (ex_world\<lparr>maps := \<lambda>a. [(''openid.mode'', [''id_res'']), (''openid.claimed_id'', [''76561197960287930''])]\<rparr>))
     = (''76561197960287930'', None)"
proof -
  let ?w1 = "ex_world\<lparr>maps := \<lambda>a. [(''openid.mode'', [''id_res''])]\<rparr>"
  let ?w2 = "ex_world\<lparr>maps := \<lambda>a. [(''openid.mode'', [''id_res'']), (''openid.claimed_id'', [''76561197960287930''])]\<rparr>"
  let ?res = "ok_response (Inr valid_body) :: (net_error + string) http_response"
  have c: "Values_Get (maps ?w1 0) ''openid.claimed_id'' = []"
    "Values_Get (maps ?w2 0) ''openid.claimed_id'' = ''76561197960287930''"
    by (simp_all add: Values_Get_def)
  have p: "Values_Get (maps w 0) ''openid.mode'' = ''id_res''
      \<and> answer_post net_valid (requests w) (confirmation_request (maps w 0)) = Inr ?res
      \<and> Body ?res = Inr valid_body \<and> Contains valid_body ''is_valid:true''
      \<and> CHR ''/'' \<notin> set (Values_Get (maps w 0) ''openid.claimed_id'')"
    if "w = ?w1 \<or> w = ?w2" for w
    using that by (auto simp: Values_Get_def net_valid_def ex_net_def ok_response_def valid_body_def)
  have "snd (ValidateCallback net_valid 1 0 w) = (Values_Get (maps w 0) ''openid.claimed_id'', None)"
    if "w = ?w1 \<or> w = ?w2" for w
    using ValidateCallback_extraction_total [of "[]" net_valid 1 0 w ?res valid_body] p [OF that]
    by blast
  from this [of ?w1] this [of ?w2] show ?thesis
    unfolding c by blast
qed

subsection \<open>Parsing the two endpoints\<close>

lemmas char_defs = byte_def is_letter_def is_digit_def is_CTL_def ToLower_byte_def

lemma parse_api_url:
  "url_Parse ''http://api.steampowered.com/ISteamUser/GetPlayerSummaries/v0002''
     = Inr \<lparr>Scheme = ''http'', Opaque = [], Host = ''api.steampowered.com'',
            Path = ''/ISteamUser/GetPlayerSummaries/v0002'', OmitHost = False,
            ForceQuery = False, RawQuery = [], Fragment = []\<rparr>"
  by (simp add: url_Parse_def Cut_def parse_def getScheme_def parse_rest_def parseHost_def
      HasSuffix_def Count_def char_defs)

lemma parse_login_url:
  "url_Parse OpenIdLoginUrl
     = Inr \<lparr>Scheme = ''https'', Opaque = [], Host = ''steamcommunity.com'',
            Path = ''/openid/login'', OmitHost = False,
            ForceQuery = False, RawQuery = [], Fragment = []\<rparr>"
  by (simp add: OpenIdLoginUrl_def url_Parse_def Cut_def parse_def getScheme_def parse_rest_def
      parseHost_def HasSuffix_def Count_def char_defs)

lemma Encode_profile_query:
  "Values_Encode (Values_Set (Values_Set [] ''key'' k) ''steamids'' i)
     = ''key='' @ QueryEscape k @ ''&steamids='' @ QueryEscape i"
  by (simp add: Values_Encode_def Values_keys_def encode_key_def byte_def QueryEscape_def
      escape_byte_def shouldEscape_def is_alnum_def)

subsection \<open>\<open>GetSteamUser\<close>\<close>

lemma GetSteamUser_eq:
  assumes "authers w sa = Some a"
  shows "GetSteamUser net sa steamid64 w =
     (w\<lparr>requests := requests w @ [profile_request (apiKey a) steamid64]\<rparr>,
      case answer_get net (requests w) (profile_request (apiKey a) steamid64) of
        Inl err \<Rightarrow> (None, Some (ErrMakeGetRequest steamid64 err))
      | Inr res \<Rightarrow>
          if StatusCode res \<noteq> 200 then (None, Some (ErrStatusNot200 steamid64 (Status res)))
          else
            (case Decode_data (Body res) of
               Inl err \<Rightarrow> (None, Some (ErrDecodeBody steamid64 err))
             | Inr data \<Rightarrow>
                 (case Players (Response data) of
                    [] \<Rightarrow> (None, Some ErrNoData)
                  | p # ps \<Rightarrow> (Some p, None))))"
proof -
  let ?u = "\<lparr>Scheme = ''http'', Opaque = [], Host = ''api.steampowered.com'',
            Path = ''/ISteamUser/GetPlayerSummaries/v0002'', OmitHost = False,
            ForceQuery = False, RawQuery = [], Fragment = []\<rparr>"
  have q: "url_Query ?u = []"
    by (simp add: url_Query_def ParseQuery_def)
  have req: "\<lparr>Method = ''GET'',
       URL = url_String (?u\<lparr>RawQuery :=
               Values_Encode (Values_Set (Values_Set (url_Query ?u) ''key'' k) ''steamids'' i)\<rparr>),
       ContentType = [], ReqBody = []\<rparr> = profile_request k i" for k i
    unfolding q Encode_profile_query
    by (simp add: url_String_def profile_request_def Cut_def)
  show ?thesis
    apply (simp only: GetSteamUser_def parse_api_url sum.case assms option.case Let_def
        http_Get_def req)
    apply (simp split: sum.splits list.splits)
    done
qed

subsection \<open>Decoding a player object\<close>

lemma foldName_Nil: "foldName [] = []"
  by (simp add: foldName.simps)

lemma foldName_tags:
  "foldName ''steamid'' = ''STEAMID''"
  "foldName ''personaname'' = ''PERSONANAME''"
  "foldName ''personastate'' = ''PERSONASTATE''"
  "foldName ''profileurl'' = ''PROFILEURL''"
  "foldName ''profilestate'' = ''PROFILESTATE''"
  "foldName ''communityvisibilitystate'' = ''COMMUNITYVISIBILITYSTATE''"
  "foldName ''avatar'' = ''AVATAR''"
  "foldName ''avatarmedium'' = ''AVATARMEDIUM''"
  "foldName ''avatarfull'' = ''AVATARFULL''"
  "foldName ''players'' = ''PLAYERS''"
  "foldName ''response'' = ''RESPONSE''"
  by (simp_all add: foldName.simps ToUpper_byte_def byte_def char_of_eq_iff)

lemma members_named_Cons:
  "members_named tag ((key, j) # kvs)
     = (if field_is key tag then j # members_named tag kvs else members_named tag kvs)"
  by (simp add: members_named_def)

lemma member_in_members_named:
  "(key, j) \<in> set kvs \<Longrightarrow> field_is key tag \<Longrightarrow> j \<in> set (members_named tag kvs)"
  by (force simp: members_named_def)

lemma decode_int_sint: "decode_int old (JInt (sint (x :: go_int))) = Inr x"
  using sint_ge [of x] sint_lt [of x] by (simp add: decode_int_def)

lemma map_sum_Inr_iff: "map_sum id f x = Inr y \<longleftrightarrow> (\<exists>z. x = Inr z \<and> y = f z)"
  by (cases x) auto

lemma decode_members_Cons_Inr:
  "decode_members f old ((key, j) # kvs) = Inr new
     \<longleftrightarrow> (\<exists>mid. f old key j = Inr mid \<and> decode_members f mid kvs = Inr new)"
  by (simp split: sum.splits)

text \<open>A member that selects no field of \<open>SteamUser\<close>, or another field, leaves a field as
  it is; the one member that selects a field sets it.\<close>

lemma SteamUser_member_other:
  assumes "SteamUser_member u key j = Inr u'"
  shows "(\<not> field_is key ''steamid'' \<longrightarrow> SteamID u' = SteamID u)
       \<and> (\<not> field_is key ''personaname'' \<longrightarrow> PersonaName u' = PersonaName u)
       \<and> (\<not> field_is key ''personastate'' \<longrightarrow> PersonaState u' = PersonaState u)
       \<and> (\<not> field_is key ''profileurl'' \<longrightarrow> ProfileUrl u' = ProfileUrl u)
       \<and> (\<not> field_is key ''profilestate'' \<longrightarrow> ProfileState u' = ProfileState u)
       \<and> (\<not> field_is key ''communityvisibilitystate'' \<longrightarrow>
             CommunityVisibilityStatus u' = CommunityVisibilityStatus u)
       \<and> (\<not> field_is key ''avatar'' \<longrightarrow> Avatar u' = Avatar u)
       \<and> (\<not> field_is key ''avatarmedium'' \<longrightarrow> AvatarMedium u' = AvatarMedium u)
       \<and> (\<not> field_is key ''avatarfull'' \<longrightarrow> AvatarFull u' = AvatarFull u)"
  using assms by (auto simp: SteamUser_member_def map_sum_Inr_iff split: if_splits)

lemma SteamUser_member_string:
  "SteamUser_member u key (JString x) = Inr u' \<Longrightarrow>
     (field_is key ''steamid'' \<longrightarrow> SteamID u' = x)
   \<and> (field_is key ''personaname'' \<longrightarrow> PersonaName u' = x)
   \<and> (field_is key ''profileurl'' \<longrightarrow> ProfileUrl u' = x)
   \<and> (field_is key ''avatar'' \<longrightarrow> Avatar u' = x)
   \<and> (field_is key ''avatarmedium'' \<longrightarrow> AvatarMedium u' = x)
   \<and> (field_is key ''avatarfull'' \<longrightarrow> AvatarFull u' = x)"
  by (auto simp: SteamUser_member_def map_sum_Inr_iff decode_string_def field_is_def foldName_tags
      split: if_splits)

lemma SteamUser_member_int:
  "SteamUser_member u key (JInt (sint x)) = Inr u' \<Longrightarrow>
     (field_is key ''personastate'' \<longrightarrow> PersonaState u' = x)
   \<and> (field_is key ''profilestate'' \<longrightarrow> ProfileState u' = x)
   \<and> (field_is key ''communityvisibilitystate'' \<longrightarrow> CommunityVisibilityStatus u' = x)"
  by (auto simp: SteamUser_member_def map_sum_Inr_iff decode_int_sint field_is_def foldName_tags
      split: if_splits)

lemma decode_members_keep:
  assumes other: "\<And>u key j u'. SteamUser_member u key j = Inr u' \<Longrightarrow> \<not> field_is key t \<Longrightarrow> F u' = F u"
  shows "decode_members SteamUser_member u kvs = Inr u' \<Longrightarrow> members_named t kvs = [] \<Longrightarrow> F u' = F u"
proof (induction kvs arbitrary: u)
  case Nil
  then show ?case by simp
next
  case (Cons kv kvs)
  obtain key j where kv: "kv = (key, j)" by (cases kv)
  from Cons.prems(1) obtain mid where
    m: "SteamUser_member u key j = Inr mid" "decode_members SteamUser_member mid kvs = Inr u'"
    unfolding kv decode_members_Cons_Inr by blast
  from Cons.prems(2) have n: "\<not> field_is key t" "members_named t kvs = []"
    unfolding kv members_named_Cons by (simp_all split: if_splits)
  from Cons.IH [OF m(2) n(2)] other [OF m(1) n(1)] show ?case by simp
qed

lemma decode_members_set:
  assumes other: "\<And>u key j u'. SteamUser_member u key j = Inr u' \<Longrightarrow> \<not> field_is key t \<Longrightarrow> F u' = F u"
    and sets: "\<And>u key u'. SteamUser_member u key v = Inr u' \<Longrightarrow> field_is key t \<Longrightarrow> F u' = x"
  shows "decode_members SteamUser_member u kvs = Inr u' \<Longrightarrow> members_named t kvs = [v] \<Longrightarrow> F u' = x"
proof (induction kvs arbitrary: u)
  case Nil
  then show ?case by (simp add: members_named_def)
next
  case (Cons kv kvs)
  obtain key j where kv: "kv = (key, j)" by (cases kv)
  from Cons.prems(1) obtain mid where
    m: "SteamUser_member u key j = Inr mid" "decode_members SteamUser_member mid kvs = Inr u'"
    unfolding kv decode_members_Cons_Inr by blast
  show ?case
  proof (cases "field_is key t")
    case True
    with Cons.prems(2) have n: "j = v" "members_named t kvs = []"
      unfolding kv members_named_Cons by simp_all
    from decode_members_keep [of t F, OF other m(2) n(2)] sets [OF m(1) [unfolded n(1)] True]
    show ?thesis by simp
  next
    case False
    with Cons.prems(2) have "members_named t kvs = [v]"
      unfolding kv members_named_Cons by simp
    from Cons.IH [OF m(2) this] show ?thesis .
  qed
qed

lemma decode_members_ok:
  assumes "\<And>key j u. (key, j) \<in> set kvs \<Longrightarrow> \<exists>u'. f u key j = Inr u'"
  shows "\<exists>u'. decode_members f u kvs = Inr u'"
  using assms
proof (induction kvs arbitrary: u)
  case Nil
  show ?case by simp
next
  case (Cons kv kvs)
  obtain key j where kv: "kv = (key, j)" by (cases kv)
  from Cons.prems [of key j u] obtain mid where m: "f u key j = Inr mid"
    unfolding kv by auto
  have "\<exists>u'. decode_members f mid kvs = Inr u'"
    by (rule Cons.IH) (use Cons.prems in auto)
  with m show ?case unfolding kv by simp
qed

lemma player_member_ok:
  assumes "player_object kvs p" and "(key, j) \<in> set kvs"
  shows "\<exists>u'. SteamUser_member u key j = Inr u'"
proof -
  have v: "j = x" if "field_is key tag" "members_named tag kvs = [x]" for tag x
    using member_in_members_named [OF assms(2) that(1)] that(2) by simp
  note p = assms(1) [unfolded player_object_def]
  have "field_is key ''steamid'' \<Longrightarrow> j = JString (SteamID p)"
    "field_is key ''personaname'' \<Longrightarrow> j = JString (PersonaName p)"
    "field_is key ''personastate'' \<Longrightarrow> j = JInt (sint (PersonaState p))"
    "field_is key ''profileurl'' \<Longrightarrow> j = JString (ProfileUrl p)"
    "field_is key ''profilestate'' \<Longrightarrow> j = JInt (sint (ProfileState p))"
    "field_is key ''communityvisibilitystate'' \<Longrightarrow> j = JInt (sint (CommunityVisibilityStatus p))"
    "field_is key ''avatar'' \<Longrightarrow> j = JString (Avatar p)"
    "field_is key ''avatarmedium'' \<Longrightarrow> j = JString (AvatarMedium p)"
    "field_is key ''avatarfull'' \<Longrightarrow> j = JString (AvatarFull p)"
    using p by (simp_all add: v)
  then show ?thesis
    by (auto simp: SteamUser_member_def decode_string_def decode_int_sint)
qed

text \<open>A well-formed player object decodes to its record, whatever the element held before.\<close>

lemma decode_player_object:
  assumes "player_object kvs p"
  shows "decode_SteamUser u (JObject kvs) = Inr p"
proof -
  obtain u' where d: "decode_members SteamUser_member u kvs = Inr u'"
    using decode_members_ok [of kvs SteamUser_member u] player_member_ok [OF assms] by blast
  note p = assms [unfolded player_object_def]
  note str = decode_members_set [where v = "JString x" and x = x for x, OF _ _ d]
  note int = decode_members_set [where v = "JInt (sint x)" and x = x for x, OF _ _ d]
  have "SteamID u' = SteamID p"
    by (rule str [of "''steamid''"]) (use p SteamUser_member_other SteamUser_member_string in blast)+
  moreover have "PersonaName u' = PersonaName p"
    by (rule str [of "''personaname''"]) (use p SteamUser_member_other SteamUser_member_string in blast)+
  moreover have "PersonaState u' = PersonaState p"
    by (rule int [of "''personastate''"]) (use p SteamUser_member_other SteamUser_member_int in blast)+
  moreover have "ProfileUrl u' = ProfileUrl p"
    by (rule str [of "''profileurl''"]) (use p SteamUser_member_other SteamUser_member_string in blast)+
  moreover have "ProfileState u' = ProfileState p"
    by (rule int [of "''profilestate''"]) (use p SteamUser_member_other SteamUser_member_int in blast)+
  moreover have "CommunityVisibilityStatus u' = CommunityVisibilityStatus p"
    by (rule int [of "''communityvisibilitystate''"])
      (use p SteamUser_member_other SteamUser_member_int in blast)+
  moreover have "Avatar u' = Avatar p"
    by (rule str [of "''avatar''"]) (use p SteamUser_member_other SteamUser_member_string in blast)+
  moreover have "AvatarMedium u' = AvatarMedium p"
    by (rule str [of "''avatarmedium''"]) (use p SteamUser_member_other SteamUser_member_string in blast)+
  moreover have "AvatarFull u' = AvatarFull p"
    by (rule str [of "''avatarfull''"]) (use p SteamUser_member_other SteamUser_member_string in blast)+
  ultimately have "u' = p" by simp
  with d show ?thesis by (simp add: decode_SteamUser_def decode_struct_def)
qed

lemma Decode_envelope_one:
  assumes "player_object kvs p"
  shows "Decode_data (Inr (envelope [JObject kvs])) = Inr \<lparr>Response = \<lparr>Players = [p]\<rparr>\<rparr>"
  by (simp add: Decode_data_def envelope_def decode_struct_def data_member_def Response_member_def
      field_is_def decode_players_def decode_player_object [OF assms])

lemma ex_player_ints:
  "sint (PersonaState ex_player) = 3" "sint (ProfileState ex_player) = 1"
  "sint (CommunityVisibilityStatus ex_player) = 3"
  by (simp_all add: ex_player_def PersonaStateAway_def ProfileStateConfigured_def
      CommunityVisibilityStatusPublic_def)

lemma ex_player_object: "player_object ex_player_json ex_player"
proof -
  have f: "foldName ''lastlogoff'' = ''LASTLOGOFF''"
    by (simp add: foldName.simps ToUpper_byte_def byte_def char_of_eq_iff)
  show ?thesis
    unfolding player_object_def ex_player_ints
    by (simp add: ex_player_json_def ex_player_def members_named_def field_is_def foldName_tags f)
qed

text \<open>
  C7. With a \<open>SteamAuther\<close> and a response of the profile API: a status other than
  200 gives the error holding the status text; with the status 200, a decoded envelope
  without players gives \<open>ErrNoData\<close> and one with players gives the first of them;
  and a player is returned in that last case only.
\<close>

theorem GetSteamUser_status_and_no_data:
  assumes "authers w sa = Some a"
    and "answer_get net (requests w) (profile_request (apiKey a) steamid64) = Inr res"
  shows "(StatusCode res \<noteq> 200 \<longrightarrow>
            snd (GetSteamUser net sa steamid64 w) = (None, Some (ErrStatusNot200 steamid64 (Status res))))
         \<and> (\<forall>d. StatusCode res = 200 \<and> Decode_data (Body res) = Inr d \<and> Players (Response d) = [] \<longrightarrow>
            snd (GetSteamUser net sa steamid64 w) = (None, Some ErrNoData))
         \<and> (\<forall>d p ps. StatusCode res = 200 \<and> Decode_data (Body res) = Inr d \<and> Players (Response d) = p # ps \<longrightarrow>
            snd (GetSteamUser net sa steamid64 w) = (Some p, None))
         \<and> (\<forall>p. fst (snd (GetSteamUser net sa steamid64 w)) = Some p \<longrightarrow>
            StatusCode res = 200
            \<and> (\<exists>d ps. Decode_data (Body res) = Inr d \<and> Players (Response d) = p # ps)
            \<and> snd (snd (GetSteamUser net sa steamid64 w)) = None)"
  using assms by (auto simp: GetSteamUser_eq split: sum.splits list.splits)

theorem GetSteamUser_status_and_no_data_witness:
  "snd (GetSteamUser net_500 1 ''76561197960287930'' ex_world)
     = (None, Some (ErrStatusNot200 ''76561197960287930'' ''500 Internal Server Error''))
   \<and> snd (GetSteamUser net_invalid 1 ''76561197960287930'' ex_world) = (None, Some ErrNoData)
   \<and> snd (GetSteamUser net_valid 1 ''76561197960287930'' ex_world) = (Some ex_player, None)"
proof -
  have a: "authers ex_world 1 = Some \<lparr>apiKey = ''KEY'', realm = ''http://localhost:8080''\<rparr>"
    by (simp add: ex_world_def)
  let ?req = "profile_request (apiKey \<lparr>apiKey = ''KEY'', realm = ''http://localhost:8080''\<rparr>) ''76561197960287930''"
  let ?r5 = "error_response (Inr (envelope [JObject ex_player_json])) :: (json_error + json) http_response"
  let ?r2 = "ok_response (Inr (envelope [])) :: (json_error + json) http_response"
  let ?r1 = "ok_response (Inr (envelope [JObject ex_player_json])) :: (json_error + json) http_response"
  have g5: "answer_get net_500 (requests ex_world) ?req = Inr ?r5"
    by (simp add: net_500_def ex_net_def)
  have g2: "answer_get net_invalid (requests ex_world) ?req = Inr ?r2"
    by (simp add: net_invalid_def ex_net_def)
  have g1: "answer_get net_valid (requests ex_world) ?req = Inr ?r1"
    by (simp add: net_valid_def ex_net_def)
  have s5: "StatusCode ?r5 \<noteq> 200" "Status ?r5 = ''500 Internal Server Error''"
    by (simp_all add: error_response_def)
  have s2: "StatusCode ?r2 = 200
      \<and> Decode_data (Body ?r2) = Inr \<lparr>Response = \<lparr>Players = []\<rparr>\<rparr>
      \<and> Players (Response \<lparr>Response = \<lparr>Players = []\<rparr>\<rparr>) = []"
    by (simp add: ok_response_def envelope_def Decode_data_def decode_struct_def data_member_def
        Response_member_def field_is_def decode_players_def)
  have s1: "StatusCode ?r1 = 200
      \<and> Decode_data (Body ?r1) = Inr \<lparr>Response = \<lparr>Players = [ex_player]\<rparr>\<rparr>
      \<and> Players (Response \<lparr>Response = \<lparr>Players = [ex_player]\<rparr>\<rparr>) = ex_player # []"
    by (simp add: ok_response_def Decode_envelope_one [OF ex_player_object])
  from GetSteamUser_status_and_no_data [OF a g5] s5
  have "snd (GetSteamUser net_500 1 ''76561197960287930'' ex_world)
     = (None, Some (ErrStatusNot200 ''76561197960287930'' ''500 Internal Server Error''))"
    by metis
  moreover from GetSteamUser_status_and_no_data [OF a g2] s2
  have "snd (GetSteamUser net_invalid 1 ''76561197960287930'' ex_world) = (None, Some ErrNoData)"
    by blast
  moreover from GetSteamUser_status_and_no_data [OF a g1] s1
  have "snd (GetSteamUser net_valid 1 ''76561197960287930'' ex_world) = (Some ex_player, None)"
    by blast
  ultimately show ?thesis by blast
qed

text \<open>
  C8. When the profile API answers with the status 200 and the envelope around one
  well-formed player object, \<open>GetSteamUser\<close> returns the record whose nine documented
  fields are the values of the object's members: each string as it stands, each integer
  unchanged.
\<close>

theorem GetSteamUser_decodes_player:
  assumes "authers w sa = Some a"
    and "answer_get net (requests w) (profile_request (apiKey a) steamid64) = Inr res"
    and "StatusCode res = 200"
    and "Body res = Inr (envelope [JObject kvs])"
    and "player_object kvs p"
  shows "snd (GetSteamUser net sa steamid64 w) = (Some p, None)"
  using assms(2,3,4) by (simp add: GetSteamUser_eq [OF assms(1)] Decode_envelope_one [OF assms(5)])

theorem GetSteamUser_decodes_player_witness:
  "snd (GetSteamUser net_valid 1 ''76561197960287930'' ex_world) = (Some ex_player, None)
   \<and> SteamID ex_player = ''76561197960287930''
   \<and> sint (PersonaState ex_player) = 3 \<and> sint (ProfileState ex_player) = 1
   \<and> sint (CommunityVisibilityStatus ex_player) = 3"
proof -
  have a: "authers ex_world 1 = Some \<lparr>apiKey = ''KEY'', realm = ''http://localhost:8080''\<rparr>"
    by (simp add: ex_world_def)
  let ?res = "ok_response (Inr (envelope [JObject ex_player_json])) :: (json_error + json) http_response"
  have g: "answer_get net_valid (requests ex_world)
             (profile_request (apiKey \<lparr>apiKey = ''KEY'', realm = ''http://localhost:8080''\<rparr>)
                ''76561197960287930'') = Inr ?res"
    by (simp add: net_valid_def ex_net_def)
  have s: "StatusCode ?res = 200" "Body ?res = Inr (envelope [JObject ex_player_json])"
    by (simp_all add: ok_response_def)
  have i: "SteamID ex_player = ''76561197960287930''"
    by (simp add: ex_player_def)
  from GetSteamUser_decodes_player [OF a g s ex_player_object] ex_player_ints i
  show ?thesis by simp
qed

subsection \<open>The configuration of a \<open>SteamAuther\<close>\<close>

lemma ValidateCallback_authers: "authers (fst (ValidateCallback net sa vals w)) = authers w"
  by (cases "Values_Get (maps w vals) ''openid.mode'' = ''id_res''")
    (simp_all add: ValidateCallback_id_res ValidateCallback_mismatch posted_def)

lemma GetSteamUser_authers: "authers (fst (GetSteamUser net sa steamid64 w)) = authers w"
proof (cases "authers w sa")
  case None
  then show ?thesis by (simp add: GetSteamUser_def parse_api_url)
next
  case (Some a)
  then show ?thesis by (simp add: GetSteamUser_eq)
qed

text \<open>
  C9. After \<open>New(apiKey, realm)\<close>, any sequence of calls of \<open>GetAuthUrl\<close>,
  \<open>ValidateCallback\<close> and \<open>GetSteamUser\<close> on the new \<open>SteamAuther\<close> leaves its two
  fields at the values given to \<open>New\<close>; no call writes to any \<open>SteamAuther\<close>.
\<close>

theorem SteamAuther_fields_immutable:
  "authers (run_calls net (snd (New k r w)) cs (fst (New k r w))) (snd (New k r w))
     = Some \<lparr>apiKey = k, realm = r\<rparr>
   \<and> authers (run_calls net sa cs w) = authers w"
proof -
  have frame: "authers (foldl (call_step net x) v cs) = authers v" for x v
  proof (induction cs arbitrary: v)
    case Nil
    show ?case by simp
  next
    case (Cons c cs)
    have "authers (call_step net x v c) = authers v"
      by (cases c) (simp_all add: ValidateCallback_authers GetSteamUser_authers split: prod.splits)
    with Cons.IH [of "call_step net x v c"] show ?case by simp
  qed
  have "authers (fst (New k r w)) (snd (New k r w)) = Some \<lparr>apiKey = k, realm = r\<rparr>"
    by (simp add: New_def)
  with frame show ?thesis by (simp add: run_calls_def)
qed

theorem SteamAuther_fields_immutable_witness:
  "authers (run_calls net_valid 2
      [Call_GetAuthUrl ''http://localhost:8080/auth/callback'', Call_ValidateCallback 0,
       Call_GetSteamUser ''76561197960287930'', Call_ValidateCallback 0]
      (fst (New ''KEY2'' ''https://example.org'' ex_world))) 2
     = Some \<lparr>apiKey = ''KEY2'', realm = ''https://example.org''\<rparr>"
proof -
  have "snd (New ''KEY2'' ''https://example.org'' ex_world) = 2"
    by (simp add: New_def ex_world_def)
  with SteamAuther_fields_immutable [of net_valid "''KEY2''" "''https://example.org''" ex_world]
  show ?thesis by simp
qed

subsection \<open>Query escaping\<close>

lemma byte_less_256: "byte c < 256"
  by (simp add: byte_def)

lemma nat_less_16_cases:
  "(n::nat) < 16 \<Longrightarrow> n = 0 \<or> n = 1 \<or> n = 2 \<or> n = 3 \<or> n = 4 \<or> n = 5 \<or> n = 6 \<or> n = 7
     \<or> n = 8 \<or> n = 9 \<or> n = 10 \<or> n = 11 \<or> n = 12 \<or> n = 13 \<or> n = 14 \<or> n = 15"
  by arith

lemma upperhex_digit:
  assumes "n < 16"
  shows "ishex (upperhex n) \<and> unhex (upperhex n) = n \<and> is_alnum (upperhex n)"
  using nat_less_16_cases [OF assms]
  by (elim disjE) (simp_all add: upperhex_def ishex_def unhex_def is_alnum_def byte_def)

lemma unescape_escape_byte:
  "unescape True (escape_byte c @ t) = map_sum id ((#) c) (unescape True t)"
proof -
  consider (space) "c = CHR '' ''" | (esc) "c \<noteq> CHR '' ''" "shouldEscape c"
    | (plain) "c \<noteq> CHR '' ''" "\<not> shouldEscape c"
    by blast
  then show ?thesis
  proof cases
    case space
    then show ?thesis by (simp add: escape_byte_def)
  next
    case esc
    have d: "byte c div 16 < 16" "byte c mod 16 < 16"
      using byte_less_256 [of c] by simp_all
    have "char_of (byte c div 16 * 16 + byte c mod 16) = c"
      by (simp add: byte_def)
    with esc upperhex_digit [OF d(1)] upperhex_digit [OF d(2)] show ?thesis
      by (simp add: escape_byte_def)
  next
    case plain
    then have "c \<noteq> CHR ''%''" "c \<noteq> CHR ''+''"
      by (auto simp: shouldEscape_def is_alnum_def byte_def)
    with plain show ?thesis by (simp add: escape_byte_def)
  qed
qed

lemma QueryUnescape_QueryEscape: "QueryUnescape (QueryEscape s) = Inr s"
  unfolding QueryUnescape_def QueryEscape_def
  by (induction s) (simp_all add: unescape_escape_byte)

lemma escape_byte_chars:
  assumes "x \<in> set (escape_byte c)"
  shows "is_alnum x \<or> x \<in> set ''-_.~+%''"
proof -
  have d: "byte c div 16 < 16" "byte c mod 16 < 16"
    using byte_less_256 [of c] by simp_all
  consider (space) "c = CHR '' ''" | (esc) "c \<noteq> CHR '' ''" "shouldEscape c"
    | (plain) "c \<noteq> CHR '' ''" "\<not> shouldEscape c"
    by blast
  then show ?thesis
  proof cases
    case space
    with assms show ?thesis by (simp add: escape_byte_def)
  next
    case esc
    with assms have "x = CHR ''%'' \<or> x = upperhex (byte c div 16) \<or> x = upperhex (byte c mod 16)"
      by (auto simp: escape_byte_def)
    with upperhex_digit [OF d(1)] upperhex_digit [OF d(2)] show ?thesis by auto
  next
    case plain
    with assms have "x = c" by (simp add: escape_byte_def)
    with plain show ?thesis by (auto simp: shouldEscape_def)
  qed
qed

lemma QueryEscape_chars:
  assumes "x \<in> set (QueryEscape s)"
  shows "is_alnum x \<or> x \<in> set ''-_.~+%''"
  using assms escape_byte_chars by (auto simp: QueryEscape_def)

lemma QueryEscape_free:
  "CHR ''&'' \<notin> set (QueryEscape s)" "CHR ''='' \<notin> set (QueryEscape s)"
  "CHR '';'' \<notin> set (QueryEscape s)" "CHR ''#'' \<notin> set (QueryEscape s)"
  "CHR ''?'' \<notin> set (QueryEscape s)"
  using QueryEscape_chars [of "CHR ''&''" s] QueryEscape_chars [of "CHR ''=''" s]
    QueryEscape_chars [of "CHR '';''" s] QueryEscape_chars [of "CHR ''#''" s]
    QueryEscape_chars [of "CHR ''?''" s]
  by (auto simp: is_alnum_def byte_def)

lemma QueryEscape_no_CTL: "x \<in> set (QueryEscape s) \<Longrightarrow> \<not> is_CTL x"
  using QueryEscape_chars [of x s] by (auto simp: is_alnum_def is_CTL_def byte_def)

subsection \<open>Parsing an encoded query\<close>

lemma Split_from_no_sep: "sep \<notin> set a \<Longrightarrow> Split_from sep cur a = [cur @ a]"
  by (induction a arbitrary: cur) auto

lemma Split_from_sep:
  "sep \<notin> set a \<Longrightarrow> Split_from sep cur (a @ sep # b) = (cur @ a) # Split_from sep [] b"
  by (induction a arbitrary: cur) auto

lemma Split_join:
  assumes "ps \<noteq> []" and "\<And>p. p \<in> set ps \<Longrightarrow> sep \<notin> set p"
  shows "Split (join ps [sep]) sep = ps"
  using assms
proof (induction ps)
  case Nil
  then show ?case by simp
next
  case (Cons x xs)
  show ?case
  proof (cases xs)
    case Nil
    with Cons.prems show ?thesis by (simp add: Split_def Split_from_no_sep)
  next
    case (Cons y ys)
    with Cons.IH Cons.prems have "Split (join xs [sep]) sep = xs" by simp
    with Cons Cons.prems show ?thesis by (simp add: Split_def Split_from_sep)
  qed
qed

lemma Cut_at_sep: "sep \<notin> set a \<Longrightarrow> Cut (a @ sep # b) sep = (a, b)"
  by (induction a) (auto simp: Cut_def)

lemma parseQuery_piece_pair:
  "parseQuery_piece (m, None) (QueryEscape k @ CHR ''='' # QueryEscape x) = (Values_Add m k x, None)"
  by (simp add: parseQuery_piece_def QueryEscape_free Cut_at_sep QueryUnescape_QueryEscape)

lemma foldl_parseQuery_piece:
  "foldl parseQuery_piece (m, None) (map (\<lambda>kx. QueryEscape (fst kx) @ CHR ''='' # QueryEscape (snd kx)) l)
     = (foldl (\<lambda>m kx. Values_Add m (fst kx) (snd kx)) m l, None)"
  by (induction l arbitrary: m) (simp_all add: parseQuery_piece_pair)

lemma ParseQuery_pairs:
  assumes "kxs \<noteq> []"
  shows "ParseQuery (join (map (\<lambda>kx. QueryEscape (fst kx) @ CHR ''='' # QueryEscape (snd kx)) kxs) ''&'')
           = (foldl (\<lambda>m kx. Values_Add m (fst kx) (snd kx)) [] kxs, None)"
proof -
  let ?ps = "map (\<lambda>kx. QueryEscape (fst kx) @ CHR ''='' # QueryEscape (snd kx)) kxs"
  have s: "Split (join ?ps ''&'') CHR ''&'' = ?ps"
    by (rule Split_join) (use assms QueryEscape_free in auto)
  have "join ?ps ''&'' \<noteq> []"
  proof
    assume "join ?ps ''&'' = []"
    with s have "?ps = [[]]" by (simp add: Split_def)
    then show False by (cases kxs) auto
  qed
  then show ?thesis by (simp add: ParseQuery_def s foldl_parseQuery_piece)
qed

subsection \<open>\<open>GetAuthUrl\<close>\<close>

lemma Encode_auth_query:
  "Values_Encode
     (Values_Set (Values_Set (Values_Set (Values_Set (Values_Set (Values_Set []
        ''openid.ns'' ns) ''openid.mode'' mode) ''openid.realm'' r) ''openid.return_to'' ret)
        ''openid.claimed_id'' cid) ''openid.identity'' ident)
   = join (map (\<lambda>kx. QueryEscape (fst kx) @ CHR ''='' # QueryEscape (snd kx))
       [(''openid.claimed_id'', cid), (''openid.identity'', ident), (''openid.mode'', mode),
        (''openid.ns'', ns), (''openid.realm'', r), (''openid.return_to'', ret)]) ''&''"
  by (simp add: Values_Encode_def Values_keys_def encode_key_def byte_def)

lemma Cut_no_sep: "sep \<notin> set s \<Longrightarrow> Cut s sep = (s, [])"
  by (induction s) (auto simp: Cut_def)

lemma parse_login_url_with_query:
  assumes "q \<noteq> []" and "\<And>x. x \<in> set q \<Longrightarrow> \<not> is_CTL x"
    and "CHR ''#'' \<notin> set q" and "CHR ''?'' \<notin> set q"
  shows "url_Parse (''https://steamcommunity.com/openid/login?'' @ q)
     = Inr \<lparr>Scheme = ''https'', Opaque = [], Host = ''steamcommunity.com'',
            Path = ''/openid/login'', OmitHost = False,
            ForceQuery = False, RawQuery = q, Fragment = []\<rparr>"
proof -
  let ?raw = "''https://steamcommunity.com/openid/login?'' @ q"
  let ?rest = "''//steamcommunity.com/openid/login?'' @ q"
  have c: "Cut ?raw CHR ''#'' = (?raw, [])"
    by (rule Cut_no_sep) (use assms(3) in simp)
  have ctl: "\<not> list_ex is_CTL ?raw"
    using assms(2) by (auto simp: list_ex_iff is_CTL_def byte_def)
  have star: "?raw \<noteq> ''*''"
    by simp
  have g: "getScheme ?raw = Inr (''https'', ?rest)"
    by (simp add: getScheme_def char_defs)
  have "last q \<in> set q"
    using assms(1) by simp
  with assms(4) have l: "last q \<noteq> CHR ''?''"
    by metis
  have s: "\<not> HasSuffix ?rest CHR ''?''"
    using assms(1) l by (simp add: HasSuffix_def)
  have cq: "Cut ?rest CHR ''?'' = (''//steamcommunity.com/openid/login'', q)"
    by (simp add: Cut_def)
  have r: "parse_rest ''https'' ?rest
     = Inr \<lparr>Scheme = ''https'', Opaque = [], Host = ''steamcommunity.com'',
            Path = ''/openid/login'', OmitHost = False,
            ForceQuery = False, RawQuery = q, Fragment = []\<rparr>"
    unfolding parse_rest_def
    by (simp only: s cq Let_def) (simp add: parseHost_def char_defs Cut_def)
  show ?thesis
    unfolding url_Parse_def c
    by (simp only: Let_def prod.case parse_def ctl star g r if_False sum.case) simp
qed

text \<open>
  C6. For a \<open>SteamAuther\<close> with any realm and for any return URL, \<open>GetAuthUrl\<close>
  returns no error and the URL \<open>https://steamcommunity.com/openid/login?q\<close>, which
  parses back to that endpoint with the query \<open>q\<close>, and \<open>q\<close> parses without error
  to exactly the six parameters: \<open>openid.ns\<close>, \<open>openid.mode = checkid_setup\<close>,
  \<open>openid.realm\<close> the realm, \<open>openid.return_to\<close> the return URL, and
  \<open>openid.claimed_id\<close> and \<open>openid.identity\<close> the identifier-select value. The
  fixed endpoint parses, so the error of \<open>url.Parse\<close> does not arise.
\<close>

theorem GetAuthUrl_builds_login_url:
  assumes "authers w sa = Some a"
  shows "\<exists>q vals.
           GetAuthUrl sa returnUrl w = (''https://steamcommunity.com/openid/login?'' @ q, None)
         \<and> url_Parse (''https://steamcommunity.com/openid/login?'' @ q)
             = Inr \<lparr>Scheme = ''https'', Opaque = [], Host = ''steamcommunity.com'',
                    Path = ''/openid/login'', OmitHost = False, ForceQuery = False,
                    RawQuery = q, Fragment = []\<rparr>
         \<and> ParseQuery q = (vals, None)
         \<and> map_of vals =
             [''openid.ns'' \<mapsto> [''http://specs.openid.net/auth/2.0''],
              ''openid.mode'' \<mapsto> [''checkid_setup''],
              ''openid.realm'' \<mapsto> [realm a],
              ''openid.return_to'' \<mapsto> [returnUrl],
              ''openid.claimed_id'' \<mapsto> [''http://specs.openid.net/auth/2.0/identifier_select''],
              ''openid.identity'' \<mapsto> [''http://specs.openid.net/auth/2.0/identifier_select'']]
         \<and> Values_Get vals ''openid.ns'' = ''http://specs.openid.net/auth/2.0''
         \<and> Values_Get vals ''openid.mode'' = ''checkid_setup''
         \<and> Values_Get vals ''openid.realm'' = realm a
         \<and> Values_Get vals ''openid.return_to'' = returnUrl
         \<and> Values_Get vals ''openid.claimed_id'' = ''http://specs.openid.net/auth/2.0/identifier_select''
         \<and> Values_Get vals ''openid.identity'' = ''http://specs.openid.net/auth/2.0/identifier_select''"
proof -
  let ?sel = "''http://specs.openid.net/auth/2.0/identifier_select''"
  let ?kxs = "[(''openid.claimed_id'', ?sel), (''openid.identity'', ?sel),
       (''openid.mode'', ''checkid_setup''), (''openid.ns'', ''http://specs.openid.net/auth/2.0''),
       (''openid.realm'', realm a), (''openid.return_to'', returnUrl)]"
  let ?q = "join (map (\<lambda>kx. QueryEscape (fst kx) @ CHR ''='' # QueryEscape (snd kx)) ?kxs) ''&''"
  let ?vals = "[(''openid.claimed_id'', [?sel]), (''openid.identity'', [?sel]),
       (''openid.mode'', [''checkid_setup'']), (''openid.ns'', [''http://specs.openid.net/auth/2.0'']),
       (''openid.realm'', [realm a]), (''openid.return_to'', [returnUrl])]"
  let ?u = "\<lparr>Scheme = ''https'', Opaque = [], Host = ''steamcommunity.com'',
            Path = ''/openid/login'', OmitHost = False,
            ForceQuery = False, RawQuery = [], Fragment = []\<rparr>"
  have ne: "?q \<noteq> []"
    by simp
  have q0: "url_Query ?u = []"
    by (simp add: url_Query_def ParseQuery_def)
  have str: "url_String (?u\<lparr>RawQuery := ?q\<rparr>) = ''https://steamcommunity.com/openid/login?'' @ ?q"
    using ne by (simp add: url_String_def Cut_def)
  have 1: "GetAuthUrl sa returnUrl w = (''https://steamcommunity.com/openid/login?'' @ ?q, None)"
    by (simp only: GetAuthUrl_def parse_login_url sum.case Let_def q0 assms option.case
        Encode_auth_query str)
  have 2: "url_Parse (''https://steamcommunity.com/openid/login?'' @ ?q)
             = Inr \<lparr>Scheme = ''https'', Opaque = [], Host = ''steamcommunity.com'',
                    Path = ''/openid/login'', OmitHost = False, ForceQuery = False,
                    RawQuery = ?q, Fragment = []\<rparr>"
  proof (rule parse_login_url_with_query [OF ne])
    show "\<not> is_CTL x" if "x \<in> set ?q" for x
    proof -
      from that have "x = CHR ''='' \<or> x = CHR ''&'' \<or> (\<exists>s. x \<in> set (QueryEscape s))"
        by auto
      then show ?thesis
        using QueryEscape_no_CTL by (auto simp: is_CTL_def byte_def)
    qed
    show "CHR ''#'' \<notin> set ?q" "CHR ''?'' \<notin> set ?q"
      by (simp_all add: QueryEscape_free)
  qed
  have "ParseQuery ?q = (foldl (\<lambda>m kx. Values_Add m (fst kx) (snd kx)) [] ?kxs, None)"
    by (rule ParseQuery_pairs) simp
  then have 3: "ParseQuery ?q = (?vals, None)"
    by simp
  have 4: "map_of ?vals =
             [''openid.ns'' \<mapsto> [''http://specs.openid.net/auth/2.0''],
              ''openid.mode'' \<mapsto> [''checkid_setup''],
              ''openid.realm'' \<mapsto> [realm a],
              ''openid.return_to'' \<mapsto> [returnUrl],
              ''openid.claimed_id'' \<mapsto> [?sel],
              ''openid.identity'' \<mapsto> [?sel]]"
    by (auto simp: fun_eq_iff)
  have 5: "Values_Get ?vals ''openid.ns'' = ''http://specs.openid.net/auth/2.0''"
    "Values_Get ?vals ''openid.mode'' = ''checkid_setup''"
    "Values_Get ?vals ''openid.realm'' = realm a"
    "Values_Get ?vals ''openid.return_to'' = returnUrl"
    "Values_Get ?vals ''openid.claimed_id'' = ?sel"
    "Values_Get ?vals ''openid.identity'' = ?sel"
    by (simp_all add: Values_Get_def)
  from 1 2 3 4 5 show ?thesis by blast
qed

theorem GetAuthUrl_builds_login_url_witness:
  "GetAuthUrl 1 ''http://localhost:8080/auth/callback'' ex_world
     = (''https://steamcommunity.com/openid/login?openid.claimed_id=http%3A%2F%2Fspecs.openid.net%2Fauth%2F2.0%2Fidentifier_select&openid.identity=http%3A%2F%2Fspecs.openid.net%2Fauth%2F2.0%2Fidentifier_select&openid.mode=checkid_setup&openid.ns=http%3A%2F%2Fspecs.openid.net%2Fauth%2F2.0&openid.realm=http%3A%2F%2Flocalhost%3A8080&openid.return_to=http%3A%2F%2Flocalhost%3A8080%2Fauth%2Fcallback'',
        None)
   \<and> snd (GetAuthUrl 1 ''http://localhost:8080/auth/callback'' ex_world) = None"
proof -
  have a: "authers ex_world 1 = Some \<lparr>apiKey = ''KEY'', realm = ''http://localhost:8080''\<rparr>"
    by (simp add: ex_world_def)
  from GetAuthUrl_builds_login_url [OF a, of "''http://localhost:8080/auth/callback''"]
  have n: "snd (GetAuthUrl 1 ''http://localhost:8080/auth/callback'' ex_world) = None"
    by auto
  have "fst (GetAuthUrl 1 ''http://localhost:8080/auth/callback'' ex_world)
     = ''https://steamcommunity.com/openid/login?openid.claimed_id=http%3A%2F%2Fspecs.openid.net%2Fauth%2F2.0%2Fidentifier_select&openid.identity=http%3A%2F%2Fspecs.openid.net%2Fauth%2F2.0%2Fidentifier_select&openid.mode=checkid_setup&openid.ns=http%3A%2F%2Fspecs.openid.net%2Fauth%2F2.0&openid.realm=http%3A%2F%2Flocalhost%3A8080&openid.return_to=http%3A%2F%2Flocalhost%3A8080%2Fauth%2Fcallback''"
    by (simp add: GetAuthUrl_def parse_login_url url_Query_def ParseQuery_def ex_world_def Let_def
        Values_Encode_def Values_keys_def encode_key_def byte_def QueryEscape_def escape_byte_def
        shouldEscape_def is_alnum_def upperhex_def url_String_def Cut_def)
  with n show ?thesis by (simp add: prod_eq_iff)
qed

end
